theory Spec2Isabelle
  imports Complex_Main "HOL-Library.Multiset" "HOL-Library.Word"
begin

section \<open>Python values and errors\<close>

text \<open>
  The development embeds \<^verbatim>\<open>infer/inpaint.py\<close>: the two loaders
  (\<^verbatim>\<open>read_video_with_mask\<close>, \<^verbatim>\<open>read_video_with_mask_from_frame\<close>), the
  resampling, truncation and first-frame handling inside \<^verbatim>\<open>generate_video\<close>, and
  the compositor (\<^verbatim>\<open>_visualize_video\<close>, \<^verbatim>\<open>concatenate_images_horizontally\<close>).
  Every exception the Python raises on these paths is a value of \<open>error\<close>; a function
  that may raise returns \<open>error + 'a\<close> with \<open>Inl\<close> for the exception.
\<close>

datatype error =
    ValueError string
  | TypeError string
  | IndexError
  | ZeroDivisionError
  | UnboundLocalError string
  | NotImplementedError
  | OSError string
  | RuntimeError string

text \<open>Python's \<^verbatim>\<open>UnboundLocalError\<close> is a subclass of \<^verbatim>\<open>NameError\<close>.\<close>

fun is_NameError :: "error \<Rightarrow> bool" where
  "is_NameError (UnboundLocalError v) = True"
| "is_NameError e = False"

subsection \<open>Decimal rendering of integers (\<^verbatim>\<open>str(n)\<close> inside an f-string)\<close>

fun str_nat :: "nat \<Rightarrow> string" where
  "str_nat n =
     (if n < 10 then [''0123456789'' ! n]
      else str_nat (n div 10) @ [''0123456789'' ! (n mod 10)])"

declare str_nat.simps [simp del]

definition str_int :: "int \<Rightarrow> string" where
  "str_int i = (if i < 0 then CHR ''-'' # str_nat (nat (- i)) else str_nat (nat i))"

subsection \<open>List indexing and slicing\<close>

text \<open>\<^verbatim>\<open>xs[0]\<close>: raises \<^verbatim>\<open>IndexError\<close> on the empty list.\<close>

definition getitem0 :: "'a list \<Rightarrow> error + 'a" where
  "getitem0 xs = (case xs of [] \<Rightarrow> Inl IndexError | x # _ \<Rightarrow> Inr x)"

text \<open>\<^verbatim>\<open>xs[0] = v\<close>: raises \<^verbatim>\<open>IndexError\<close> on the empty list.\<close>

definition setitem0 :: "'a list \<Rightarrow> 'a \<Rightarrow> error + 'a list" where
  "setitem0 xs v = (case xs of [] \<Rightarrow> Inl IndexError | _ # rest \<Rightarrow> Inr (v # rest))"

text \<open>
  A slice bound is clamped as CPython does for a step of 1: a negative bound counts from
  the end, and the result is cut to \<open>0 .. len\<close>.
\<close>

definition clamp_bound :: "nat \<Rightarrow> int \<Rightarrow> nat" where
  "clamp_bound n i = (if i < 0 then nat (int n + i) else min (nat i) n)"

text \<open>\<^verbatim>\<open>xs[a:b]\<close>\<close>

definition py_slice :: "'a list \<Rightarrow> int \<Rightarrow> int \<Rightarrow> 'a list" where
  "py_slice xs a b =
     (let lo = clamp_bound (length xs) a; hi = clamp_bound (length xs) b
      in take (hi - lo) (drop lo xs))"

text \<open>\<^verbatim>\<open>xs[:b]\<close>, where \<^verbatim>\<open>b\<close> may be \<^verbatim>\<open>None\<close> (the whole list).\<close>

definition py_slice_to :: "'a list \<Rightarrow> int option \<Rightarrow> 'a list" where
  "py_slice_to xs b = (case b of None \<Rightarrow> xs | Some n \<Rightarrow> take (clamp_bound (length xs) n) xs)"

text \<open>The elements at positions \<open>0, k, 2k, ...\<close> of a list.\<close>

fun every :: "nat \<Rightarrow> 'a list \<Rightarrow> 'a list" where
  "every k [] = []"
| "every k (x # xs) = x # every k (drop (k - 1) xs)"

text \<open>
  \<^verbatim>\<open>xs[::k]\<close>: a step of zero raises \<^verbatim>\<open>ValueError\<close>, a negative step walks the list
  from its last element.
\<close>

definition py_slice_step :: "'a list \<Rightarrow> int \<Rightarrow> error + 'a list" where
  "py_slice_step xs k =
     (if k = 0 then Inl (ValueError ''slice step cannot be zero'')
      else if 0 < k then Inr (every (nat k) xs)
      else Inr (every (nat (- k)) (rev xs)))"

section \<open>Temporal resampling (\<^verbatim>\<open>generate_video\<close>, lines 478-485)\<close>

text \<open>
  \<^verbatim>\<open>
  down_sample_fps = fps if down_sample_fps == 0 else down_sample_fps
  ... int(fps//down_sample_fps)
  \<close>
  The pair returned is the rebound \<^verbatim>\<open>down_sample_fps\<close> and the stride. Python's
  \<^verbatim>\<open>//\<close> on integers is floor division, as \<open>div\<close> on \<open>int\<close> is; it raises on a zero
  divisor.
\<close>

definition resample_stride :: "int \<Rightarrow> int \<Rightarrow> error + (int \<times> int)" where
  "resample_stride fps down_sample_fps =
     (let d = (if down_sample_fps = 0 then fps else down_sample_fps)
      in if d = 0 then Inl ZeroDivisionError else Inr (d, fps div d))"

text \<open>
  \<^verbatim>\<open>
  video, masked_video, binary_masks = video[::s], masked_video[::s], binary_masks[::s]
  \<close>
\<close>

definition downsample ::
  "int \<Rightarrow> int \<Rightarrow> 'a list \<times> 'b list \<times> 'c list \<Rightarrow>
     error + (int \<times> 'a list \<times> 'b list \<times> 'c list)" where
  "downsample fps down_sample_fps clip =
     (case clip of (video, masked_video, binary_masks) \<Rightarrow>
      (case resample_stride fps down_sample_fps of
         Inl e \<Rightarrow> Inl e
       | Inr (d, s) \<Rightarrow>
          (case py_slice_step video s of
             Inl e \<Rightarrow> Inl e
           | Inr video' \<Rightarrow>
              (case py_slice_step masked_video s of
                 Inl e \<Rightarrow> Inl e
               | Inr masked_video' \<Rightarrow>
                  (case py_slice_step binary_masks s of
                     Inl e \<Rightarrow> Inl e
                   | Inr binary_masks' \<Rightarrow> Inr (d, video', masked_video', binary_masks'))))))"

text \<open>
  The message of the \<^verbatim>\<open>ValueError\<close> of line 485:
  \<^verbatim>\<open>f"video length is less than {frames}, len(video): {len(video)}, using {len(video) - len(video) % 4 + 1} frames..."\<close>
\<close>

definition insufficient_frames_message :: "int \<Rightarrow> nat \<Rightarrow> string" where
  "insufficient_frames_message frames n =
     ''video length is less than '' @ str_int frames @ '', len(video): '' @ str_nat n
       @ '', using '' @ str_nat (n - n mod 4 + 1) @ '' frames...''"

text \<open>
  \<^verbatim>\<open>
  if not long_video:
      video, masked_video, binary_masks = video[:frames], masked_video[:frames], binary_masks[:frames]
  if len(video) < frames:
      raise ValueError(...)
  \<close>
  \<^verbatim>\<open>frames\<close> is \<^verbatim>\<open>inpainting_frames\<close>, whose default is \<^verbatim>\<open>None\<close>; comparing an
  integer with \<^verbatim>\<open>None\<close> raises \<^verbatim>\<open>TypeError\<close>.
\<close>

definition truncate_clip ::
  "bool \<Rightarrow> int option \<Rightarrow> 'a list \<times> 'b list \<times> 'c list \<Rightarrow>
     error + ('a list \<times> 'b list \<times> 'c list)" where
  "truncate_clip long_video frames clip =
     (case clip of (video, masked_video, binary_masks) \<Rightarrow>
      (let (video', masked_video', binary_masks') =
             (if \<not> long_video
              then (py_slice_to video frames, py_slice_to masked_video frames,
                    py_slice_to binary_masks frames)
              else (video, masked_video, binary_masks))
       in case frames of
            None \<Rightarrow> Inl (TypeError ''< not supported between instances of int and NoneType'')
          | Some n \<Rightarrow>
              if int (length video') < n
              then Inl (ValueError (insufficient_frames_message n (length video')))
              else Inr (video', masked_video', binary_masks')))"

text \<open>The resampler: lines 478-485 as one stage.\<close>

definition resample ::
  "int \<Rightarrow> int \<Rightarrow> bool \<Rightarrow> int option \<Rightarrow> 'a list \<times> 'b list \<times> 'c list \<Rightarrow>
     error + (int \<times> 'a list \<times> 'b list \<times> 'c list)" where
  "resample fps down_sample_fps long_video frames clip =
     (case downsample fps down_sample_fps clip of
        Inl e \<Rightarrow> Inl e
      | Inr (d, sampled) \<Rightarrow>
         (case truncate_clip long_video frames sampled of
            Inl e \<Rightarrow> Inl e
          | Inr clip' \<Rightarrow> Inr (d, clip')))"

text \<open>
  What "taking every \<open>k\<close>-th index" of a sequence means: the result holds the elements at
  the indices \<open>0, k, 2k, ...\<close> below the length, in order.
\<close>

definition takes_every :: "nat \<Rightarrow> 'a list \<Rightarrow> 'a list \<Rightarrow> bool" where
  "takes_every k xs ys \<longleftrightarrow>
     length ys = (length xs + k - 1) div k \<and> (\<forall>j < length ys. ys ! j = xs ! (j * k))"

section \<open>Images\<close>

text \<open>
  A raster is a list of rows, each a list of pixels: an array of shape \<open>(H, W)\<close>, or
  \<open>(H, W, 3)\<close> when the pixel is a triple of channels. An RGB \<^verbatim>\<open>PIL.Image\<close> and the
  \<^verbatim>\<open>uint8\<close> array \<^verbatim>\<open>np.array\<close> makes of it are the same raster of 8-bit triples; an
  image of mode \<^verbatim>\<open>L\<close> is a raster of single 8-bit values. A decoded image has at least
  one row and one column and all its rows have the same length; for such a raster
  \<open>shape2\<close> is its shape.
\<close>

type_synonym 'a raster = "'a list list"
type_synonym rgb = "8 word \<times> 8 word \<times> 8 word"
type_synonym image = "rgb raster"
type_synonym gray_image = "8 word raster"

definition shape2 :: "'a raster \<Rightarrow> nat \<times> nat" where
  "shape2 a = (length a, (case a of [] \<Rightarrow> 0 | r # _ \<Rightarrow> length r))"

text \<open>\<^verbatim>\<open>np.zeros_like(a)\<close> and \<^verbatim>\<open>np.ones_like(a) * 255\<close> on an \<open>(H, W, 3)\<close> array.\<close>

definition zeros_like :: "image \<Rightarrow> image" where
  "zeros_like a = map (map (\<lambda>_. (0, 0, 0))) a"

definition ones_like_255 :: "image \<Rightarrow> image" where
  "ones_like_255 a = map (map (\<lambda>_. (255, 255, 255))) a"

text \<open>\<^verbatim>\<open>np.repeat(binary_mask[:, :, np.newaxis], 3, axis=2)\<close>\<close>

definition repeat3 :: "'a raster \<Rightarrow> ('a \<times> 'a \<times> 'a) raster" where
  "repeat3 a = map (map (\<lambda>v. (v, v, v))) a"

text \<open>
  NumPy broadcasting of two extents: equal extents stay, an extent of 1 is stretched to
  the other, anything else is an error.
\<close>

definition broadcast_dim :: "nat \<Rightarrow> nat \<Rightarrow> nat option" where
  "broadcast_dim m n =
     (if m = n then Some m else if m = 1 then Some n else if n = 1 then Some m else None)"

definition stretch :: "nat \<Rightarrow> 'a list \<Rightarrow> 'a list" where
  "stretch n xs = (if length xs = n then xs else replicate n (hd xs))"

definition broadcast_to :: "nat \<Rightarrow> nat \<Rightarrow> 'a raster \<Rightarrow> 'a raster" where
  "broadcast_to h w a = map (stretch w) (stretch h a)"

text \<open>
  \<^verbatim>\<open>np.where(cond, x, y)\<close> for three \<open>(H, W, 3)\<close> arrays, \<open>x\<close> and \<open>y\<close> of one shape
  (\<open>x\<close> is \<^verbatim>\<open>zeros_like(y)\<close> in the source). The operands are broadcast to a common
  shape; \<^verbatim>\<open>ValueError\<close> when they cannot be.
\<close>

definition np_where3 ::
  "(bool \<times> bool \<times> bool) raster \<Rightarrow> image \<Rightarrow> image \<Rightarrow> error + image" where
  "np_where3 cond x y =
     (case (shape2 cond, shape2 y) of ((hc, wc), (hy, wy)) \<Rightarrow>
      (case (broadcast_dim hc hy, broadcast_dim wc wy) of
         (Some h, Some w) \<Rightarrow>
           Inr (map2 (\<lambda>crow (xrow, yrow).
                        map2 (\<lambda>(c1, c2, c3) ((x1, x2, x3), (y1, y2, y3)).
                                (if c1 then x1 else y1, if c2 then x2 else y2,
                                 if c3 then x3 else y3))
                             crow (zip xrow yrow))
                     (broadcast_to h w cond)
                     (zip (broadcast_to h w x) (broadcast_to h w y)))
       | _ \<Rightarrow> Inl (ValueError ''operands could not be broadcast together'')))"

section \<open>The loaders\<close>

text \<open>
  The body of the loop of both loaders (lines 100-115 and lines 153-168 are the same
  code once \<^verbatim>\<open>binary_mask\<close> is computed):
  \<^verbatim>\<open>
  frame_array = np.array(frame)
  black_frame = np.zeros_like(frame_array)
  binary_mask_expanded = np.repeat(binary_mask[:, :, np.newaxis], 3, axis=2)
  masked_frame = np.where(binary_mask_expanded, black_frame, frame_array)
  masked_video.append(Image.fromarray(masked_frame.astype(np.uint8)).convert("RGB"))
  if mask_background:
      binary_mask_image = np.where(binary_mask, 0, 255).astype(np.uint8)
  else:
      binary_mask_image = np.where(binary_mask, 255, 0).astype(np.uint8)
  binary_masks.append(Image.fromarray(binary_mask_image).convert("RGB"))
  \<close>
  It returns the masked frame and the binary mask image of one frame.
\<close>

definition mask_frame :: "bool \<Rightarrow> image \<Rightarrow> bool raster \<Rightarrow> error + (image \<times> image)" where
  "mask_frame mask_background frame binary_mask =
     (let frame_array = frame;
          black_frame = zeros_like frame_array;
          binary_mask_expanded = repeat3 binary_mask
      in case np_where3 binary_mask_expanded black_frame frame_array of
           Inl e \<Rightarrow> Inl e
         | Inr masked_frame \<Rightarrow>
             (let binary_mask_image =
                    (if mask_background
                     then map (map (\<lambda>b. if b then (0 :: 8 word) else 255)) binary_mask
                     else map (map (\<lambda>b. if b then (255 :: 8 word) else 0)) binary_mask)
              in Inr (masked_frame, repeat3 binary_mask_image)))"

text \<open>
  \<^verbatim>\<open>for frame, frame_mask in zip(video, mask): ...\<close>, over the pairs of a frame and its
  already thresholded mask; the first frame that raises ends the loop.
\<close>

fun mask_frames :: "bool \<Rightarrow> (image \<times> bool raster) list \<Rightarrow> error + (image list \<times> image list)" where
  "mask_frames mask_background [] = Inr ([], [])"
| "mask_frames mask_background ((frame, binary_mask) # rest) =
     (case mask_frame mask_background frame binary_mask of
        Inl e \<Rightarrow> Inl e
      | Inr (masked_frame, binary_mask_image) \<Rightarrow>
          (case mask_frames mask_background rest of
             Inl e \<Rightarrow> Inl e
           | Inr (masked_video, binary_masks) \<Rightarrow>
               Inr (masked_frame # masked_video, binary_mask_image # binary_masks)))"

text \<open>
  \<^verbatim>\<open>read_video_with_mask\<close> (lines 74-117). \<open>loaded\<close> is what \<^verbatim>\<open>load_video(video_path)\<close>
  decodes and \<open>cap_fps\<close> what \<^verbatim>\<open>int(cap.get(cv2.CAP_PROP_FPS))\<close> reads; \<open>masks\<close> is the
  array of per-pixel object ids, one raster per frame.
\<close>

definition read_video_with_mask ::
  "image list \<Rightarrow> int \<Rightarrow> int raster list \<Rightarrow> int \<Rightarrow> int \<Rightarrow> int \<Rightarrow> bool \<Rightarrow> int \<Rightarrow>
     error + (image list \<times> image list \<times> image list \<times> int)" where
  "read_video_with_mask loaded cap_fps masks mask_id skip_frames_start skip_frames_end
       mask_background fps =
     (let video = py_slice loaded skip_frames_start skip_frames_end;
          mask = py_slice masks skip_frames_start skip_frames_end;
          fps' = (if fps = 0 then cap_fps else fps)
      in case mask_frames mask_background
                (zip video (map (map (map (\<lambda>v. v = mask_id))) mask)) of
           Inl e \<Rightarrow> Inl e
         | Inr (masked_video, binary_masks) \<Rightarrow> Inr (video, masked_video, binary_masks, fps'))"

subsection \<open>File names\<close>

text \<open>\<^verbatim>\<open>s.startswith(p)\<close> and \<^verbatim>\<open>s.endswith(p)\<close>\<close>

definition startswith :: "string \<Rightarrow> string \<Rightarrow> bool" where
  "startswith s p \<longleftrightarrow> take (length p) s = p"

definition endswith :: "string \<Rightarrow> string \<Rightarrow> bool" where
  "endswith s p \<longleftrightarrow> length p \<le> length s \<and> drop (length s - length p) s = p"

text \<open>\<^verbatim>\<open>sub in s\<close>\<close>

fun contains :: "string \<Rightarrow> string \<Rightarrow> bool" where
  "contains [] sub \<longleftrightarrow> sub = []"
| "contains (c # cs) sub \<longleftrightarrow> take (length sub) (c # cs) = sub \<or> contains cs sub"

text \<open>\<^verbatim>\<open>os.path.join(a, b)\<close> of \<^verbatim>\<open>posixpath\<close>, for two components.\<close>

definition path_join :: "string \<Rightarrow> string \<Rightarrow> string" where
  "path_join a b =
     (if startswith b ''/'' then b
      else if a = [] \<or> endswith a ''/'' then a @ b
      else a @ ''/'' @ b)"

text \<open>\<^verbatim>\<open>os.path.basename(p)\<close>: what follows the last slash.\<close>

definition basename :: "string \<Rightarrow> string" where
  "basename p = rev (takeWhile (\<lambda>c. c \<noteq> CHR ''/'') (rev p))"

text \<open>
  \<^verbatim>\<open>os.path.splitext(b)[0]\<close> for a name without a slash: the name up to its last dot,
  unless there is no dot or only dots come before it.
\<close>

definition splitext_root :: "string \<Rightarrow> string" where
  "splitext_root b =
     (let ext = takeWhile (\<lambda>c. c \<noteq> CHR ''.'') (rev b);
          root = take (length b - length ext - 1) b
      in if CHR ''.'' \<notin> set b \<or> list_all (\<lambda>c. c = CHR ''.'') root then b else root)"

text \<open>\<^verbatim>\<open>s.split('_')[-1]\<close>: what follows the last underscore.\<close>

definition last_field :: "string \<Rightarrow> string" where
  "last_field s = rev (takeWhile (\<lambda>c. c \<noteq> CHR ''_'') (rev s))"

text \<open>
  \<^verbatim>\<open>int(s)\<close> on a string of ASCII characters: surrounding whitespace is dropped, one
  sign is allowed, and what is left must be a non-empty run of decimal digits
  (underscores between digits cannot occur here: the string is a field of a split at
  underscores). The message of the \<^verbatim>\<open>ValueError\<close> carries the string.
\<close>

definition is_space :: "char \<Rightarrow> bool" where
  "is_space c \<longleftrightarrow> (of_char c :: nat) \<in> set [9, 10, 11, 12, 13, 28, 29, 30, 31, 32]"

definition strip :: "string \<Rightarrow> string" where
  "strip s = rev (dropWhile is_space (rev (dropWhile is_space s)))"

definition is_digit :: "char \<Rightarrow> bool" where
  "is_digit c \<longleftrightarrow> 48 \<le> (of_char c :: nat) \<and> (of_char c :: nat) \<le> 57"

definition digits_value :: "string \<Rightarrow> nat" where
  "digits_value ds = foldl (\<lambda>acc c. 10 * acc + ((of_char c :: nat) - 48)) 0 ds"

definition py_int :: "string \<Rightarrow> error + int" where
  "py_int s =
     (let t = strip s;
          (negative, ds) =
             (case t of
                [] \<Rightarrow> (False, [])
              | c # r \<Rightarrow> if c = CHR ''-'' then (True, r)
                         else if c = CHR ''+'' then (False, r) else (False, t))
      in if ds \<noteq> [] \<and> list_all is_digit ds
         then Inr (if negative then - int (digits_value ds) else int (digits_value ds))
         else Inl (ValueError (''invalid literal for int() with base 10: '' @ s)))"

text \<open>
  \<^verbatim>\<open>
  def sort_key(path):
      return int(os.path.splitext(os.path.basename(path))[0].split('_')[-1])
  \<close>
\<close>

definition sort_key_of :: "string \<Rightarrow> error + int" where
  "sort_key_of path = py_int (last_field (splitext_root (basename path)))"

text \<open>
  \<^verbatim>\<open>sorted(paths, key=sort_key)\<close>: the key of every path is computed first, in list order
  (the first failure is raised); the sort is stable.
\<close>

fun keyed :: "string list \<Rightarrow> error + (int \<times> string) list" where
  "keyed [] = Inr []"
| "keyed (p # ps) =
     (case sort_key_of p of
        Inl e \<Rightarrow> Inl e
      | Inr k \<Rightarrow> (case keyed ps of Inl e \<Rightarrow> Inl e | Inr r \<Rightarrow> Inr ((k, p) # r)))"

definition py_sorted :: "string list \<Rightarrow> error + string list" where
  "py_sorted paths = (case keyed paths of Inl e \<Rightarrow> Inl e | Inr kps \<Rightarrow> Inr (map snd (sort_key fst kps)))"

subsection \<open>The frame-directory loader\<close>

text \<open>
  Storage, as the loader sees it: \<^verbatim>\<open>os.listdir\<close>, \<^verbatim>\<open>Image.open(p).convert("RGB")\<close> and
  \<^verbatim>\<open>Image.open(p).convert("L")\<close>. \<open>None\<close> is the \<^verbatim>\<open>OSError\<close> of a missing directory or
  of a file that cannot be read.
\<close>

record storage =
  listdir :: "string \<Rightarrow> string list option"
  open_RGB :: "string \<Rightarrow> image option"
  open_L :: "string \<Rightarrow> gray_image option"

text \<open>\<^verbatim>\<open>[f(p) for p in paths]\<close> for a reader that may raise.\<close>

fun open_all :: "(string \<Rightarrow> 'a option) \<Rightarrow> string list \<Rightarrow> error + 'a list" where
  "open_all rd [] = Inr []"
| "open_all rd (p # ps) =
     (case rd p of
        None \<Rightarrow> Inl (OSError p)
      | Some x \<Rightarrow> (case open_all rd ps of Inl e \<Rightarrow> Inl e | Inr xs \<Rightarrow> Inr (x # xs)))"

text \<open>The two list comprehensions of lines 132-139.\<close>

definition frame_file :: "string \<Rightarrow> bool" where
  "frame_file f \<longleftrightarrow> startswith f ''frame_'' \<and> endswith f ''.png''"

definition mask_file :: "string \<Rightarrow> bool" where
  "mask_file f \<longleftrightarrow> startswith f ''seg_mask_'' \<and> endswith f ''.png''"

text \<open>
  \<^verbatim>\<open>read_video_with_mask_from_frame\<close> (lines 119-170). The body never reads
  \<^verbatim>\<open>skip_frames_start\<close> and \<^verbatim>\<open>skip_frames_end\<close>, and returns \<^verbatim>\<open>fps\<close> as it was given.
\<close>

definition read_video_with_mask_from_frame ::
  "storage \<Rightarrow> string \<Rightarrow> string \<Rightarrow> int \<Rightarrow> int \<Rightarrow> bool \<Rightarrow> int \<Rightarrow>
     error + (image list \<times> image list \<times> image list \<times> int)" where
  "read_video_with_mask_from_frame st video_path mask_path skip_frames_start skip_frames_end
       mask_background fps =
     (case listdir st video_path of
        None \<Rightarrow> Inl (OSError video_path)
      | Some fs \<Rightarrow>
     (let frame_paths = map (path_join video_path) (filter frame_file fs)
      in case listdir st mask_path of
        None \<Rightarrow> Inl (OSError mask_path)
      | Some ms \<Rightarrow>
     (let mask_paths = map (path_join mask_path) (filter mask_file ms)
      in case py_sorted frame_paths of
        Inl e \<Rightarrow> Inl e
      | Inr frame_paths \<Rightarrow>
     (case py_sorted mask_paths of
        Inl e \<Rightarrow> Inl e
      | Inr mask_paths \<Rightarrow>
     (case open_all (open_RGB st) frame_paths of
        Inl e \<Rightarrow> Inl e
      | Inr video \<Rightarrow>
     (case open_all (open_L st) mask_paths of
        Inl e \<Rightarrow> Inl e
      | Inr masks \<Rightarrow>
     (case mask_frames mask_background
             (zip video (map (map (map (\<lambda>v. v = 255))) masks)) of
        Inl e \<Rightarrow> Inl e
      | Inr (masked_video, binary_masks) \<Rightarrow>
          Inr (video, masked_video, binary_masks, fps))))))))"

section \<open>The compositor\<close>

text \<open>
  \<^verbatim>\<open>np.concatenate(arrays, axis=1)\<close> for arrays of shape \<open>(H, W, C)\<close> with the channels in
  the pixel type: the heights must agree, and row \<open>r\<close> of the result is row \<open>r\<close> of every
  array, left to right.
\<close>

definition np_concatenate_axis1 :: "'p raster list \<Rightarrow> error + 'p raster" where
  "np_concatenate_axis1 arrays =
     (case arrays of
        [] \<Rightarrow> Inl (ValueError ''need at least one array to concatenate'')
      | a # rest \<Rightarrow>
          if list_all (\<lambda>b. length b = length a) rest
          then Inr (map (\<lambda>r. concat (map (\<lambda>b. b ! r) arrays)) [0 ..< length a])
          else Inl (ValueError ''all the input array dimensions except for the concatenation axis must match exactly''))"

text \<open>
  \<^verbatim>\<open>
  tmp_tuple = ()
  for item in images_list:
      tmp_tuple += (np.array(item[i]), )
  \<close>
\<close>

fun items_at :: "nat \<Rightarrow> 'a list list \<Rightarrow> error + 'a list" where
  "items_at i [] = Inr []"
| "items_at i (item # rest) =
     (if i < length item
      then (case items_at i rest of Inl e \<Rightarrow> Inl e | Inr r \<Rightarrow> Inr (item ! i # r))
      else Inl IndexError)"

text \<open>The loop \<^verbatim>\<open>for i in range(length)\<close> of \<^verbatim>\<open>concatenate_images_horizontally\<close>.\<close>

fun concatenate_loop :: "'p raster list list \<Rightarrow> string \<Rightarrow> nat list \<Rightarrow> error + 'p raster list" where
  "concatenate_loop images_list output_type [] = Inr []"
| "concatenate_loop images_list output_type (i # rest) =
     (case items_at i images_list of
        Inl e \<Rightarrow> Inl e
      | Inr tmp_tuple \<Rightarrow>
          (case np_concatenate_axis1 tmp_tuple of
             Inl e \<Rightarrow> Inl e
           | Inr concatenated_img \<Rightarrow>
               if output_type = ''pil'' \<or> output_type = ''np''
               then (case concatenate_loop images_list output_type rest of
                       Inl e \<Rightarrow> Inl e
                     | Inr concatenated_images \<Rightarrow> Inr (concatenated_img # concatenated_images))
               else Inl NotImplementedError))"

text \<open>\<^verbatim>\<open>concatenate_images_horizontally\<close> (lines 51-72).\<close>

definition concatenate_images_horizontally ::
  "'p raster list list \<Rightarrow> string \<Rightarrow> error + 'p raster list" where
  "concatenate_images_horizontally images_list output_type =
     (case images_list of
        [] \<Rightarrow> Inl IndexError
      | first # _ \<Rightarrow> concatenate_loop images_list output_type [0 ..< length first])"

text \<open>
  Frames of floating-point channels, as the video processor and the generative model
  produce them. The values are modelled as reals: the compositor only compares a mask
  value with \<open>0.5\<close> and multiplies a channel by 0 or 1.
\<close>

type_synonym rgbf = "real \<times> real \<times> real"
type_synonym fframe = "rgbf raster"

text \<open>
  The processors of the pipeline object that \<^verbatim>\<open>_visualize_video\<close> calls:
  \<^verbatim>\<open>pipe.video_processor.preprocess_video(v, height=h, width=w)\<close>,
  \<^verbatim>\<open>pipe.masked_video_processor.preprocess_video(m, height=h, width=w)\<close> (one channel per
  pixel, the tensor read frame by frame as after the two \<^verbatim>\<open>squeeze(0)\<close>) and
  \<^verbatim>\<open>pipe.video_processor.postprocess_video(video=t, output_type="np")[0]\<close>.
\<close>

record processors =
  video_preprocess :: "nat \<Rightarrow> nat \<Rightarrow> image list \<Rightarrow> fframe list"
  mask_preprocess :: "nat \<Rightarrow> nat \<Rightarrow> image list \<Rightarrow> real raster list"
  video_postprocess :: "fframe list \<Rightarrow> fframe list"

text \<open>Height and width of a stack of frames (0 when there is no frame).\<close>

definition frame_shape :: "'a raster list \<Rightarrow> nat \<times> nat" where
  "frame_shape v = (case v of [] \<Rightarrow> (0, 0) | a # _ \<Rightarrow> shape2 a)"

text \<open>
  \<^verbatim>\<open>original_video * keep\<close> for a tensor of frames and a tensor of booleans with one
  channel: the frame count, height and width are broadcast, and a pixel is kept where
  the boolean is true and zero elsewhere.
\<close>

definition mul_mask :: "fframe list \<Rightarrow> bool raster list \<Rightarrow> error + fframe list" where
  "mul_mask original keep =
     (case (frame_shape original, frame_shape keep) of ((ho, wo), (hk, wk)) \<Rightarrow>
      (case (broadcast_dim (length original) (length keep), broadcast_dim ho hk,
             broadcast_dim wo wk) of
         (Some f, Some h, Some w) \<Rightarrow>
           Inr (map2 (map2 (map2 (\<lambda>px k. if k then px else (0, 0, 0))))
                  (map (broadcast_to h w) (stretch f original))
                  (map (broadcast_to h w) (stretch f keep)))
       | _ \<Rightarrow> Inl (RuntimeError ''The size of tensor a must match the size of tensor b'')))"

text \<open>
  \<^verbatim>\<open>_visualize_video\<close> (lines 30-49). \<open>video\<close> is the generated array of shape
  \<open>(F, H, W, 3)\<close>; \<^verbatim>\<open>video.shape[1]\<close> and \<^verbatim>\<open>video.shape[2]\<close> are its height and width.
\<close>

definition visualize_video ::
  "processors \<Rightarrow> bool \<Rightarrow> image list \<Rightarrow> fframe list \<Rightarrow> image list \<Rightarrow> error + fframe list" where
  "visualize_video pipe mask_background original_video video masks =
     (case frame_shape video of (height, width) \<Rightarrow>
      (let original_video = video_preprocess pipe height width original_video;
           masks = mask_preprocess pipe height width masks
       in case (if mask_background
                then mul_mask original_video (map (map (map (\<lambda>m. m \<ge> 0.5))) masks)
                else mul_mask original_video (map (map (map (\<lambda>m. m < 0.5))) masks)) of
            Inl e \<Rightarrow> Inl e
          | Inr masked_video \<Rightarrow>
              (let original_video = video_postprocess pipe original_video;
                   masked_video = video_postprocess pipe masked_video;
                   masks = map repeat3 masks
               in concatenate_images_horizontally
                    [original_video, masked_video, masks, video] ''np'')))"

section \<open>\<^verbatim>\<open>generate_video\<close>\<close>

text \<open>
  The first-frame policy (lines 487-492):
  \<^verbatim>\<open>
  if first_frame_gt:
      gt_mask_first_frame = binary_masks[0]
      if mask_background:
          binary_masks[0] = Image.fromarray(np.ones_like(np.array(binary_masks[0])) * 255).convert("RGB")
      else:
          binary_masks[0] = Image.fromarray(np.zeros_like(np.array(binary_masks[0]))).convert("RGB")
  \<close>
  The local \<^verbatim>\<open>gt_mask_first_frame\<close> is bound only inside the branch: the first component
  of the result is \<open>None\<close> while the name is unbound.
\<close>

definition first_frame_policy ::
  "bool \<Rightarrow> bool \<Rightarrow> image list \<Rightarrow> error + (image option \<times> image list)" where
  "first_frame_policy first_frame_gt mask_background binary_masks =
     (if first_frame_gt
      then (case getitem0 binary_masks of
              Inl e \<Rightarrow> Inl e
            | Inr gt_mask_first_frame \<Rightarrow>
                (case setitem0 binary_masks
                        (if mask_background then ones_like_255 gt_mask_first_frame
                         else zeros_like gt_mask_first_frame) of
                   Inl e \<Rightarrow> Inl e
                 | Inr binary_masks' \<Rightarrow> Inr (Some gt_mask_first_frame, binary_masks')))
      else Inr (None, binary_masks))"

text \<open>
  What \<^verbatim>\<open>generate_video\<close> calls beyond its own code: storage, \<^verbatim>\<open>cv2.dilate\<close> with a
  square kernel of the given size, the still-image inpainting pipeline (applied to the
  first frame and its mask), the video pipeline, and the pipeline's processors.
\<close>

record pipe_args =
  arg_image :: image
  arg_num_frames :: int
  arg_video :: "image list"
  arg_masks :: "image list"
  arg_stride :: int

record collaborators =
  store :: storage
  cv2_dilate :: "int \<Rightarrow> image \<Rightarrow> image"
  flux_fill :: "image \<Rightarrow> image \<Rightarrow> image"
  pipe_call :: "pipe_args \<Rightarrow> fframe list"
  pipe_processors :: processors

text \<open>\<^verbatim>\<open>if img_inpainting_model:\<close> for an optional string.\<close>

definition truthy :: "string option \<Rightarrow> bool" where
  "truthy s = (case s of None \<Rightarrow> False | Some v \<Rightarrow> v \<noteq> [])"

text \<open>
  The still-image substitution (lines 403-466), without its prints and the files it
  writes:
  \<^verbatim>\<open>
  if img_inpainting_model:
      if dilate_size > 0:
          for i in range(len(binary_masks)):
              binary_masks[i] = Image.fromarray(cv2.dilate(np.array(binary_masks[i]), ...).astype(np.uint8))
      image = video[0]
      mask = binary_masks[0]
      foreground_mask = (mask_array == 255)
      masked_image = np.where(foreground_mask, image_array, 0)
      image_inpainting = pipe_img_inpainting(image=image, mask_image=mask, ...).images[0]
      gt_video_first_frame = video[0]
      video[0] = image_inpainting
      masked_video[0] = image_inpainting
  \<close>
  The first component of the result is the binding of \<^verbatim>\<open>gt_video_first_frame\<close>
  (\<open>None\<close> while the name is unbound). The locals \<^verbatim>\<open>image\<close> and \<^verbatim>\<open>mask\<close> are \<open>img\<close> and
  \<open>mask_image\<close> here; \<^verbatim>\<open>masked_image\<close> is only written to a file, but computing it may
  raise.
\<close>

definition first_frame_inpainting ::
  "collaborators \<Rightarrow> string option \<Rightarrow> int \<Rightarrow> image list \<times> image list \<times> image list \<Rightarrow>
     error + (image option \<times> image list \<times> image list \<times> image list)" where
  "first_frame_inpainting ext img_inpainting_model dilate_size clip =
     (case clip of (video, masked_video, binary_masks) \<Rightarrow>
      if truthy img_inpainting_model
      then (let binary_masks =
                  (if dilate_size > 0 then map (cv2_dilate ext dilate_size) binary_masks
                   else binary_masks)
            in case getitem0 video of
                 Inl e \<Rightarrow> Inl e
               | Inr img \<Rightarrow>
            (case getitem0 binary_masks of
                 Inl e \<Rightarrow> Inl e
               | Inr mask_image \<Rightarrow>
            (case np_where3 (map (map (\<lambda>(r, g, b). (r = 255, g = 255, b = 255))) mask_image)
                    img (zeros_like img) of
                 Inl e \<Rightarrow> Inl e
               | Inr masked_image \<Rightarrow>
            (let image_inpainting = flux_fill ext img mask_image;
                 gt_video_first_frame = img
             in case setitem0 video image_inpainting of
                  Inl e \<Rightarrow> Inl e
                | Inr video' \<Rightarrow>
                    (case setitem0 masked_video image_inpainting of
                       Inl e \<Rightarrow> Inl e
                     | Inr masked_video' \<Rightarrow>
                         Inr (Some gt_video_first_frame, video', masked_video', binary_masks))))))
      else Inr (None, video, masked_video, binary_masks))"

text \<open>
  The state of \<^verbatim>\<open>generate_video\<close> when it calls the video pipeline (line 494): the two
  locals that may be unbound, the three sequences, the rebound \<^verbatim>\<open>down_sample_fps\<close>, and
  the arguments of the call.
\<close>

record prepared =
  pre_gt_mask_first_frame :: "image option"
  pre_gt_video_first_frame :: "image option"
  pre_video :: "image list"
  pre_masked_video :: "image list"
  pre_binary_masks :: "image list"
  pre_down_sample_fps :: int
  pre_call :: pipe_args

text \<open>
  Lines 313-493 and the arguments of line 494. The metadata row gives \<open>meta_path\<close>; the
  directories, \<^verbatim>\<open>fps = 8\<close>, \<^verbatim>\<open>start_frame = 0\<close> and \<^verbatim>\<open>end_frame = -1\<close> are the constants of
  lines 324-329. With another \<^verbatim>\<open>generate_type\<close> the function reaches line 468 with
  \<^verbatim>\<open>pipe\<close> unbound.
\<close>

definition prepare ::
  "collaborators \<Rightarrow> string \<Rightarrow> string \<Rightarrow> int option \<Rightarrow> bool \<Rightarrow> bool \<Rightarrow> int \<Rightarrow> int \<Rightarrow>
     string option \<Rightarrow> bool \<Rightarrow> int \<Rightarrow> error + prepared" where
  "prepare ext generate_type meta_path inpainting_frames mask_background first_frame_gt
       down_sample_fps overlap_frames img_inpainting_model long_video dilate_size =
     (if generate_type \<noteq> ''i2v_inpainting'' then Inl (UnboundLocalError ''pipe'')
      else if \<not> contains meta_path ''.0.mp4'' \<and> \<not> contains meta_path ''.mp4''
      then Inl NotImplementedError
      else
     (let video_path = ''../../data/droid_2/images/'';
          mask_frames_path = ''../../data/droid_2/masks/'';
          fps = 8;
          start_frame = 0;
          end_frame = - 1
      in case read_video_with_mask_from_frame (store ext) video_path mask_frames_path
                start_frame end_frame mask_background fps of
        Inl e \<Rightarrow> Inl e
      | Inr (video, masked_video, binary_masks, fps) \<Rightarrow>
     (case first_frame_inpainting ext img_inpainting_model dilate_size
             (video, masked_video, binary_masks) of
        Inl e \<Rightarrow> Inl e
      | Inr (gt_video_first_frame, video, masked_video, binary_masks) \<Rightarrow>
     (case resample fps down_sample_fps long_video inpainting_frames
             (video, masked_video, binary_masks) of
        Inl e \<Rightarrow> Inl e
      | Inr (down_sample_fps, video, masked_video, binary_masks) \<Rightarrow>
     (case first_frame_policy first_frame_gt mask_background binary_masks of
        Inl e \<Rightarrow> Inl e
      | Inr (gt_mask_first_frame, binary_masks) \<Rightarrow>
     (case getitem0 masked_video of
        Inl e \<Rightarrow> Inl e
      | Inr img \<Rightarrow>
     (case inpainting_frames of
        None \<Rightarrow> Inl (TypeError ''unsupported operand type(s) for -: NoneType and int'')
      | Some frames \<Rightarrow>
          Inr \<lparr> pre_gt_mask_first_frame = gt_mask_first_frame,
                pre_gt_video_first_frame = gt_video_first_frame,
                pre_video = video,
                pre_masked_video = masked_video,
                pre_binary_masks = binary_masks,
                pre_down_sample_fps = down_sample_fps,
                pre_call = \<lparr> arg_image = img, arg_num_frames = frames,
                             arg_video = masked_video, arg_masks = binary_masks,
                             arg_stride = frames - overlap_frames \<rparr> \<rparr>)))))))"

text \<open>
  What a completed run leaves: the frame and mask sequences passed to the compositor,
  the comparison video, and the rate in the name of the output file.
\<close>

record outcome =
  out_video :: "image list"
  out_binary_masks :: "image list"
  out_round_video :: "fframe list"
  out_fps_suffix :: int

text \<open>
  Lines 494-517:
  \<^verbatim>\<open>
  inpaint_outputs = pipe(...).frames[0]
  video_generate = inpaint_outputs
  binary_masks[0] = gt_mask_first_frame
  video[0] = gt_video_first_frame
  round_video = _visualize_video(pipe, mask_background, video[:len(video_generate)],
                                 video_generate, binary_masks[:len(video_generate)])
  export_to_video(round_video, output_path.replace(".mp4", f"_fps{down_sample_fps}.mp4"), fps=8)
  \<close>
  Reading an unbound local raises \<^verbatim>\<open>UnboundLocalError\<close>; the right-hand side of an
  assignment is evaluated before the subscript.
\<close>

definition finish :: "collaborators \<Rightarrow> bool \<Rightarrow> prepared \<Rightarrow> error + outcome" where
  "finish ext mask_background p =
     (let video_generate = pipe_call ext (pre_call p)
      in case pre_gt_mask_first_frame p of
           None \<Rightarrow> Inl (UnboundLocalError ''gt_mask_first_frame'')
         | Some gt_mask_first_frame \<Rightarrow>
      (case setitem0 (pre_binary_masks p) gt_mask_first_frame of
           Inl e \<Rightarrow> Inl e
         | Inr binary_masks \<Rightarrow>
      (case pre_gt_video_first_frame p of
           None \<Rightarrow> Inl (UnboundLocalError ''gt_video_first_frame'')
         | Some gt_video_first_frame \<Rightarrow>
      (case setitem0 (pre_video p) gt_video_first_frame of
           Inl e \<Rightarrow> Inl e
         | Inr video \<Rightarrow>
      (case visualize_video (pipe_processors ext) mask_background
              (py_slice_to video (Some (int (length video_generate))))
              video_generate
              (py_slice_to binary_masks (Some (int (length video_generate)))) of
           Inl e \<Rightarrow> Inl e
         | Inr round_video \<Rightarrow>
             Inr \<lparr> out_video = video, out_binary_masks = binary_masks,
                   out_round_video = round_video,
                   out_fps_suffix = pre_down_sample_fps p \<rparr>)))))"

definition generate_video ::
  "collaborators \<Rightarrow> string \<Rightarrow> string \<Rightarrow> int option \<Rightarrow> bool \<Rightarrow> bool \<Rightarrow> int \<Rightarrow> int \<Rightarrow>
     string option \<Rightarrow> bool \<Rightarrow> int \<Rightarrow> error + outcome" where
  "generate_video ext generate_type meta_path inpainting_frames mask_background first_frame_gt
       down_sample_fps overlap_frames img_inpainting_model long_video dilate_size =
     (case prepare ext generate_type meta_path inpainting_frames mask_background first_frame_gt
             down_sample_fps overlap_frames img_inpainting_model long_video dilate_size of
        Inl e \<Rightarrow> Inl e
      | Inr p \<Rightarrow> finish ext mask_background p)"

section \<open>Windows of the multi-clip loop\<close>



section \<open>A small storage and stand-ins for the collaborators\<close>

text \<open>
  Concrete inputs on which the functions above can be run. The storage holds the two
  directories \<^verbatim>\<open>generate_video\<close> reads, with the given listings; every file decodes to
  an image of one pixel: the frame with number \<open>k\<close> has \<open>k\<close> in its red channel, and
  the mask with number \<open>k\<close> selects the pixel when \<open>k\<close> is even. The stand-in for the
  dilation is the identity, the one for the still-image model paints the frame white, the
  one for the video model returns one grey frame per conditioning frame, and the
  processors neither resize nor rescale.
\<close>

definition demo_storage :: "string list \<Rightarrow> string list \<Rightarrow> storage" where
  "demo_storage frame_listing mask_listing =
     \<lparr> listdir = (\<lambda>d. if d = ''../../data/droid_2/images/'' then Some frame_listing
                       else if d = ''../../data/droid_2/masks/'' then Some mask_listing
                       else None),
       open_RGB = (\<lambda>p. case sort_key_of p of
                          Inl e \<Rightarrow> None
                        | Inr k \<Rightarrow> Some [[(word_of_int k, 7, 9)]]),
       open_L = (\<lambda>p. case sort_key_of p of
                        Inl e \<Rightarrow> None
                      | Inr k \<Rightarrow> Some [[if even k then 255 else 0]]) \<rparr>"

definition demo_processors :: processors where
  "demo_processors =
     \<lparr> video_preprocess = (\<lambda>h w v. map (map (map (\<lambda>(r, g, b). (real (unat r), real (unat g), real (unat b))))) v),
       mask_preprocess = (\<lambda>h w m. map (map (map (\<lambda>(r, g, b). if r = 0 then 0 else 1))) m),
       video_postprocess = (\<lambda>t. t) \<rparr>"

definition demo_collaborators :: "storage \<Rightarrow> collaborators" where
  "demo_collaborators st =
     \<lparr> store = st,
       cv2_dilate = (\<lambda>k a. a),
       flux_fill = (\<lambda>img m. ones_like_255 img),
       pipe_call = (\<lambda>a. map (\<lambda>_. [[(0.5, 0.5, 0.5)]]) (arg_video a)),
       pipe_processors = demo_processors \<rparr>"


section \<open>Stacks of frames of one shape\<close>

text \<open>
  \<open>n\<close> frames, each of \<open>H\<close> rows of \<open>W\<close> pixels: the precondition of the compositor, and
  what its processors are expected to deliver.
\<close>

definition frames_of_shape :: "nat \<Rightarrow> nat \<Rightarrow> nat \<Rightarrow> 'a raster list \<Rightarrow> bool" where
  "frames_of_shape n H W v \<longleftrightarrow>
     length v = n \<and> list_all (\<lambda>a. length a = H \<and> list_all (\<lambda>row. length row = W) a) v"

section \<open>Numbered file names\<close>

text \<open>
  The names of the numbered files of a frame directory and of a mask directory:
  \<^verbatim>\<open>frame_0.png\<close>, \<^verbatim>\<open>frame_1.png\<close>, ... and \<^verbatim>\<open>seg_mask_0.png\<close>, \<^verbatim>\<open>seg_mask_1.png\<close>, ...
\<close>

definition frame_name :: "nat \<Rightarrow> string" where
  "frame_name i = ''frame_'' @ str_nat i @ ''.png''"

definition mask_name :: "nat \<Rightarrow> string" where
  "mask_name i = ''seg_mask_'' @ str_nat i @ ''.png''"

section \<open>Properties of slicing\<close>

lemma length_every: "0 < k \<Longrightarrow> length (every k xs) = (length xs + k - 1) div k"
proof (induction k xs rule: every.induct)
  case (1 k)
  then show ?case by simp
next
  case (2 k x xs)
  define n where "n = length (drop (k - 1) xs)"
  have ih: "length (every k (drop (k - 1) xs)) = (n + k - 1) div k"
    unfolding n_def using 2 by blast
  have rhs: "(length (x # xs) + k - 1) div k = Suc (length xs div k)"
    using 2(2) div_add_self2 [of k "length xs"] by simp
  have "(n + k - 1) div k = length xs div k"
  proof (cases "length xs < k - 1")
    case True
    then have "n = 0" by (simp add: n_def)
    then have "(n + k - 1) div k = 0" using 2(2) by simp
    moreover have "length xs div k = 0" using True by simp
    ultimately show ?thesis by simp
  next
    case False
    then have "n + k - 1 = length xs" using 2(2) by (simp add: n_def)
    then show ?thesis by simp
  qed
  with ih rhs show ?case by simp
qed

lemma nth_every: "0 < k \<Longrightarrow> j < length (every k xs) \<Longrightarrow> every k xs ! j = xs ! (j * k)"
proof (induction k xs arbitrary: j rule: every.induct)
  case (1 k)
  then show ?case by simp
next
  case (2 k x xs)
  show ?case
  proof (cases j)
    case 0
    then show ?thesis by simp
  next
    case (Suc i)
    with 2 have lt: "i < length (every k (drop (k - 1) xs))" by simp
    then have "drop (k - 1) xs \<noteq> []" by auto
    then have le: "k - 1 \<le> length xs" by simp
    from 2 lt have "every k (drop (k - 1) xs) ! i = drop (k - 1) xs ! (i * k)" by simp
    also have "\<dots> = xs ! (k - 1 + i * k)" using le by simp
    also have "k - 1 + i * k = Suc i * k - 1" using 2(2) by simp
    also have "xs ! (Suc i * k - 1) = (x # xs) ! (Suc i * k)" using 2(2) by (simp add: nth_Cons')
    finally show ?thesis using Suc by simp
  qed
qed

lemma takes_every_every: "0 < k \<Longrightarrow> takes_every k xs (every k xs)"
  by (simp add: takes_every_def length_every nth_every)

lemma every_one: "every (Suc 0) xs = xs"
  by (induction xs) simp_all

section \<open>The resampler\<close>

lemma resample_stride_pos:
  "0 < d \<Longrightarrow> d \<le> fps \<Longrightarrow> resample_stride fps d = Inr (d, fps div d) \<and> 1 \<le> fps div d"
  using pos_imp_zdiv_pos_iff [of d fps] by (simp add: resample_stride_def)

lemma resample_stride_zero:
  "0 \<le> fps \<Longrightarrow> fps < d \<Longrightarrow> resample_stride fps d = Inr (d, 0)"
  by (simp add: resample_stride_def)

text \<open>
  Claim C2, as amended. The stride is \<open>floor(fps / down_sample_fps)\<close> with no lower bound
  of 1. For a positive target rate that does not exceed the source rate the stride is at
  least 1 and the resampler keeps, from each of the three sequences, the elements at the
  indices \<open>0, stride, 2 * stride, ...\<close>. For a target rate above a non-negative source
  rate the stride is 0 and the slicing raises \<^verbatim>\<open>ValueError\<close>.
\<close>

theorem downsample_stride:
  "(0 < down_sample_fps \<and> down_sample_fps \<le> fps \<longrightarrow>
      resample_stride fps down_sample_fps = Inr (down_sample_fps, fps div down_sample_fps)
      \<and> 1 \<le> fps div down_sample_fps
      \<and> (\<exists>v m b. downsample fps down_sample_fps (video, masked_video, binary_masks)
                     = Inr (down_sample_fps, v, m, b)
            \<and> takes_every (nat (fps div down_sample_fps)) video v
            \<and> takes_every (nat (fps div down_sample_fps)) masked_video m
            \<and> takes_every (nat (fps div down_sample_fps)) binary_masks b))
   \<and> (0 \<le> fps \<and> fps < down_sample_fps \<longrightarrow>
      resample_stride fps down_sample_fps = Inr (down_sample_fps, 0)
      \<and> downsample fps down_sample_fps (video, masked_video, binary_masks)
          = Inl (ValueError ''slice step cannot be zero''))"
proof (intro conjI impI)
  assume h: "0 < down_sample_fps \<and> down_sample_fps \<le> fps"
  then have s: "resample_stride fps down_sample_fps = Inr (down_sample_fps, fps div down_sample_fps)"
    and p: "1 \<le> fps div down_sample_fps"
    using resample_stride_pos by blast+
  show "resample_stride fps down_sample_fps = Inr (down_sample_fps, fps div down_sample_fps)"
    by (rule s)
  show "1 \<le> fps div down_sample_fps" by (rule p)
  from p have k: "0 < nat (fps div down_sample_fps)" by simp
  have d: "downsample fps down_sample_fps (video, masked_video, binary_masks)
      = Inr (down_sample_fps, every (nat (fps div down_sample_fps)) video,
             every (nat (fps div down_sample_fps)) masked_video,
             every (nat (fps div down_sample_fps)) binary_masks)"
    using p by (simp add: downsample_def s py_slice_step_def)
  show "\<exists>v m b. downsample fps down_sample_fps (video, masked_video, binary_masks)
                     = Inr (down_sample_fps, v, m, b)
            \<and> takes_every (nat (fps div down_sample_fps)) video v
            \<and> takes_every (nat (fps div down_sample_fps)) masked_video m
            \<and> takes_every (nat (fps div down_sample_fps)) binary_masks b"
    using d takes_every_every [OF k, of video] takes_every_every [OF k, of masked_video]
      takes_every_every [OF k, of binary_masks] by simp
next
  assume h: "0 \<le> fps \<and> fps < down_sample_fps"
  then show s: "resample_stride fps down_sample_fps = Inr (down_sample_fps, 0)"
    using resample_stride_zero by blast
  show "downsample fps down_sample_fps (video, masked_video, binary_masks)
          = Inl (ValueError ''slice step cannot be zero'')"
    by (simp add: downsample_def s py_slice_step_def)
qed

theorem downsample_stride_witness:
  "resample_stride 24 8 = Inr (8, 3)
   \<and> downsample 24 8 ([0, 1, 2, 3, 4, 5, 6 :: nat], ''abcdefg'', [10, 11, 12, 13, 14, 15, 16 :: int])
       = Inr (8, [0, 3, 6], ''adg'', [10, 13, 16])
   \<and> takes_every 3 [0, 1, 2, 3, 4, 5, 6 :: nat] [0, 3, 6]
   \<and> resample_stride 8 24 = Inr (24, 0)
   \<and> downsample 8 24 ([0 :: nat], ''a'', [10 :: int]) = Inl (ValueError ''slice step cannot be zero'')"
proof -
  have a: "(0::int) < 8 \<and> (8::int) \<le> 24" by simp
  have b: "(0::int) \<le> 8 \<and> (8::int) < 24" by simp
  have ev: "every 3 [0, 1, 2, 3, 4, 5, 6 :: nat] = [0, 3, 6]" by code_simp
  from downsample_stride [of 8 24 "[0, 1, 2, 3, 4, 5, 6 :: nat]" "''abcdefg''"
      "[10, 11, 12, 13, 14, 15, 16 :: int]"] a
  have 1: "resample_stride 24 8 = Inr (8, 3)" by simp
  have 2: "downsample 24 8 ([0, 1, 2, 3, 4, 5, 6 :: nat], ''abcdefg'', [10, 11, 12, 13, 14, 15, 16 :: int])
       = Inr (8, [0, 3, 6], ''adg'', [10, 13, 16])"
    by code_simp
  have 3: "takes_every 3 [0, 1, 2, 3, 4, 5, 6 :: nat] [0, 3, 6]"
    using takes_every_every [of 3 "[0, 1, 2, 3, 4, 5, 6 :: nat]"] ev by simp
  from downsample_stride [of 24 8 "[0::nat]" "''a''" "[10::int]"] b
  have 4: "resample_stride 8 24 = Inr (24, 0)
      \<and> downsample 8 24 ([0 :: nat], ''a'', [10 :: int]) = Inl (ValueError ''slice step cannot be zero'')"
    by simp
  from 1 2 3 4 show ?thesis by blast
qed

text \<open>
  Claim C2 as stated fails: with a source at 8 fps and a target of 16 fps the stride is 0,
  not 1, and no sequence is resampled.
\<close>

theorem stride_zero_counterexample:
  "resample_stride 8 16 = Inr (16, 0)
   \<and> downsample 8 16 ([0 :: nat], [1 :: nat], [2 :: nat]) = Inl (ValueError ''slice step cannot be zero'')"
  by (simp add: resample_stride_def downsample_def py_slice_step_def)



section \<open>\<^verbatim>\<open>generate_video\<close> around the call of the video pipeline\<close>

lemma prepare_InrD:
  assumes "prepare ext gt mp fr mb fg d ov im lv ds = Inr p"
  obtains video masked_video binary_masks fps gv v1 m1 b1 d' v2 m2 b2 gm b3 img frames
  where "gt = ''i2v_inpainting''"
    and "read_video_with_mask_from_frame (store ext) ''../../data/droid_2/images/''
           ''../../data/droid_2/masks/'' 0 (- 1) mb 8 = Inr (video, masked_video, binary_masks, fps)"
    and "first_frame_inpainting ext im ds (video, masked_video, binary_masks) = Inr (gv, v1, m1, b1)"
    and "resample fps d lv fr (v1, m1, b1) = Inr (d', v2, m2, b2)"
    and "first_frame_policy fg mb b2 = Inr (gm, b3)"
    and "getitem0 m2 = Inr img"
    and "fr = Some frames"
    and "p = \<lparr> pre_gt_mask_first_frame = gm, pre_gt_video_first_frame = gv, pre_video = v2,
               pre_masked_video = m2, pre_binary_masks = b3, pre_down_sample_fps = d',
               pre_call = \<lparr> arg_image = img, arg_num_frames = frames, arg_video = m2,
                            arg_masks = b3, arg_stride = frames - ov \<rparr> \<rparr>"
  using assms unfolding prepare_def Let_def
  by (auto split: if_splits sum.splits prod.splits option.splits)

lemma first_frame_policy_bound:
  "first_frame_policy fg mb b = Inr (gm, b') \<Longrightarrow> (gm \<noteq> None \<longleftrightarrow> fg) \<and> (fg \<longrightarrow> b' \<noteq> [])"
  by (auto simp: first_frame_policy_def getitem0_def setitem0_def split: if_splits sum.splits list.splits)

lemma first_frame_inpainting_bound:
  "first_frame_inpainting ext im ds clip = Inr (gv, v, m, b) \<Longrightarrow> (gv \<noteq> None \<longleftrightarrow> truthy im)"
  by (auto simp: first_frame_inpainting_def Let_def split: if_splits sum.splits prod.splits)


text \<open>
  Claim C10. On the \<^verbatim>\<open>i2v_inpainting\<close> path, \<^verbatim>\<open>gt_mask_first_frame\<close> is bound exactly when
  \<^verbatim>\<open>first_frame_gt\<close> is true and \<^verbatim>\<open>gt_video_first_frame\<close> exactly when
  \<^verbatim>\<open>img_inpainting_model\<close> is set. When \<^verbatim>\<open>first_frame_gt\<close> is false or no image model is
  set, no run completes, and every run that gets as far as the call of the video pipeline
  ends after it in an \<^verbatim>\<open>UnboundLocalError\<close> (a \<^verbatim>\<open>NameError\<close>) for the first of the two
  names that is unbound.
\<close>

theorem unbound_first_frame_locals:
  assumes "\<not> first_frame_gt \<or> \<not> truthy img_inpainting_model"
  shows "(\<forall>out. generate_video ext ''i2v_inpainting'' meta_path inpainting_frames mask_background
              first_frame_gt down_sample_fps overlap_frames img_inpainting_model long_video
              dilate_size \<noteq> Inr out)
    \<and> (\<forall>p. prepare ext ''i2v_inpainting'' meta_path inpainting_frames mask_background
              first_frame_gt down_sample_fps overlap_frames img_inpainting_model long_video
              dilate_size = Inr p \<longrightarrow>
           (pre_gt_mask_first_frame p \<noteq> None \<longleftrightarrow> first_frame_gt)
         \<and> (pre_gt_video_first_frame p \<noteq> None \<longleftrightarrow> truthy img_inpainting_model)
         \<and> (\<exists>e. generate_video ext ''i2v_inpainting'' meta_path inpainting_frames mask_background
                  first_frame_gt down_sample_fps overlap_frames img_inpainting_model long_video
                  dilate_size = Inl e
                \<and> is_NameError e
                \<and> e = UnboundLocalError (if first_frame_gt then ''gt_video_first_frame''
                                         else ''gt_mask_first_frame'')))"
proof -
  have main: "(pre_gt_mask_first_frame p \<noteq> None \<longleftrightarrow> first_frame_gt)
         \<and> (pre_gt_video_first_frame p \<noteq> None \<longleftrightarrow> truthy img_inpainting_model)
         \<and> finish ext mask_background p
             = Inl (UnboundLocalError (if first_frame_gt then ''gt_video_first_frame''
                                         else ''gt_mask_first_frame''))"
    if prep: "prepare ext ''i2v_inpainting'' meta_path inpainting_frames mask_background
              first_frame_gt down_sample_fps overlap_frames img_inpainting_model long_video
              dilate_size = Inr p" for p
  proof -
    from prep obtain video masked_video binary_masks fps gv v1 m1 b1 gm b2 b3
      where inp: "first_frame_inpainting ext img_inpainting_model dilate_size
                    (video, masked_video, binary_masks) = Inr (gv, v1, m1, b1)"
        and pol: "first_frame_policy first_frame_gt mask_background b2 = Inr (gm, b3)"
        and gmp: "pre_gt_mask_first_frame p = gm"
        and gvp: "pre_gt_video_first_frame p = gv"
        and bmp: "pre_binary_masks p = b3"
      by (rule prepare_InrD) simp
    from first_frame_policy_bound [OF pol]
    have gm: "gm \<noteq> None \<longleftrightarrow> first_frame_gt" and ne: "first_frame_gt \<longrightarrow> b3 \<noteq> []"
      by blast+
    from first_frame_inpainting_bound [OF inp]
    have gv: "gv \<noteq> None \<longleftrightarrow> truthy img_inpainting_model" .
    show ?thesis
    proof (cases first_frame_gt)
      case False
      with gm have "gm = None" by simp
      then show ?thesis using False gm gv gmp gvp by (simp add: finish_def)
    next
      case True
      with assms have "\<not> truthy img_inpainting_model" by simp
      with gv have gvn: "gv = None" by simp
      from True gm obtain g where g: "gm = Some g" by auto
      from True ne obtain x xs where "b3 = x # xs" by (cases b3) auto
      then show ?thesis using True g gvn gv gmp gvp bmp
        by (simp add: finish_def setitem0_def)
    qed
  qed
  show ?thesis
  proof (intro conjI allI impI)
    fix out
    show "generate_video ext ''i2v_inpainting'' meta_path inpainting_frames mask_background
              first_frame_gt down_sample_fps overlap_frames img_inpainting_model long_video
              dilate_size \<noteq> Inr out"
      using main by (auto simp: generate_video_def split: sum.splits)
  next
    fix p
    assume prep: "prepare ext ''i2v_inpainting'' meta_path inpainting_frames mask_background
              first_frame_gt down_sample_fps overlap_frames img_inpainting_model long_video
              dilate_size = Inr p"
    from main [OF prep]
    show "pre_gt_mask_first_frame p \<noteq> None \<longleftrightarrow> first_frame_gt"
      and "pre_gt_video_first_frame p \<noteq> None \<longleftrightarrow> truthy img_inpainting_model"
      by blast+
    from main [OF prep]
    show "\<exists>e. generate_video ext ''i2v_inpainting'' meta_path inpainting_frames mask_background
                  first_frame_gt down_sample_fps overlap_frames img_inpainting_model long_video
                  dilate_size = Inl e
                \<and> is_NameError e
                \<and> e = UnboundLocalError (if first_frame_gt then ''gt_video_first_frame''
                                         else ''gt_mask_first_frame'')"
      using prep by (simp add: generate_video_def)
  qed
qed


theorem unbound_first_frame_locals_witness:
  "(\<exists>p. prepare (demo_collaborators (demo_storage [''frame_1.png'', ''frame_0.png''] [''seg_mask_0.png'', ''seg_mask_1.png'']))
           ''i2v_inpainting'' ''clip.mp4'' (Some 2) False False 0 0 (Some ''flux'') False (- 1) = Inr p)
   \<and> generate_video (demo_collaborators (demo_storage [''frame_1.png'', ''frame_0.png''] [''seg_mask_0.png'', ''seg_mask_1.png'']))
           ''i2v_inpainting'' ''clip.mp4'' (Some 2) False False 0 0 (Some ''flux'') False (- 1)
       = Inl (UnboundLocalError ''gt_mask_first_frame'')"
proof -
  have prep: "prepare (demo_collaborators (demo_storage [''frame_1.png'', ''frame_0.png''] [''seg_mask_0.png'', ''seg_mask_1.png'']))
           ''i2v_inpainting'' ''clip.mp4'' (Some 2) False False 0 0 (Some ''flux'') False (- 1)
      = Inr \<lparr> pre_gt_mask_first_frame = None,
               pre_gt_video_first_frame = Some [[(0, 7, 9)]],
               pre_video = [[[(255, 255, 255)]], [[(1, 7, 9)]]],
               pre_masked_video = [[[(255, 255, 255)]], [[(1, 7, 9)]]],
               pre_binary_masks = [[[(255, 255, 255)]], [[(0, 0, 0)]]],
               pre_down_sample_fps = 8,
               pre_call = \<lparr> arg_image = [[(255, 255, 255)]], arg_num_frames = 2,
                            arg_video = [[[(255, 255, 255)]], [[(1, 7, 9)]]],
                            arg_masks = [[[(255, 255, 255)]], [[(0, 0, 0)]]],
                            arg_stride = 2 \<rparr> \<rparr>"
    by code_simp
  from unbound_first_frame_locals [of False "Some ''flux''"
      "demo_collaborators (demo_storage [''frame_1.png'', ''frame_0.png''] [''seg_mask_0.png'', ''seg_mask_1.png''])"
      "''clip.mp4''" "Some 2" False 0 0 False "- 1"] prep
  show ?thesis by simp
qed

text \<open>
  Where the run completes, index 0 of the mask and frame sequences given to the compositor
  holds the two saved ground-truth values; and with \<^verbatim>\<open>mask_background=False\<close> the policy
  replaces the first mask by an all-zero frame of its shape.
\<close>

lemma first_frame_policy_zero_mask:
  "first_frame_policy True False (b # bs) = Inr (Some b, zeros_like b # bs)"
  by (simp add: first_frame_policy_def getitem0_def setitem0_def)

lemma finish_restores:
  assumes "finish ext mask_background p = Inr out"
  shows "\<exists>g v. pre_gt_mask_first_frame p = Some g \<and> pre_gt_video_first_frame p = Some v
           \<and> out_binary_masks out = g # tl (pre_binary_masks p)
           \<and> out_video out = v # tl (pre_video p)"
  using assms
  by (auto simp: finish_def Let_def setitem0_def
      split: option.splits sum.splits list.splits)

text \<open>
  Claim C4 on a run with \<^verbatim>\<open>first_frame_gt=True\<close>, \<^verbatim>\<open>mask_background=False\<close> and no image
  model, over two frames whose first mask selects the pixel. The mask handed to the video
  pipeline at index 0 is all zero and the ground-truth mask is kept, but the run ends in
  \<^verbatim>\<open>UnboundLocalError\<close> at line 515: neither the frame nor the mask of index 0 is
  restored for an output video.
\<close>

theorem first_frame_restore_fails:
  "prepare (demo_collaborators (demo_storage [''frame_0.png'', ''frame_1.png''] [''seg_mask_0.png'', ''seg_mask_1.png'']))
       ''i2v_inpainting'' ''clip.mp4'' (Some 2) False True 0 0 None False (- 1)
     = Inr \<lparr> pre_gt_mask_first_frame = Some [[(255, 255, 255)]],
              pre_gt_video_first_frame = None,
              pre_video = [[[(0, 7, 9)]], [[(1, 7, 9)]]],
              pre_masked_video = [[[(0, 0, 0)]], [[(1, 7, 9)]]],
              pre_binary_masks = [[[(0, 0, 0)]], [[(0, 0, 0)]]],
              pre_down_sample_fps = 8,
              pre_call = \<lparr> arg_image = [[(0, 0, 0)]], arg_num_frames = 2,
                           arg_video = [[[(0, 0, 0)]], [[(1, 7, 9)]]],
                           arg_masks = [[[(0, 0, 0)]], [[(0, 0, 0)]]],
                           arg_stride = 2 \<rparr> \<rparr>
   \<and> generate_video (demo_collaborators (demo_storage [''frame_0.png'', ''frame_1.png''] [''seg_mask_0.png'', ''seg_mask_1.png'']))
       ''i2v_inpainting'' ''clip.mp4'' (Some 2) False True 0 0 None False (- 1)
     = Inl (UnboundLocalError ''gt_video_first_frame'')"
  by code_simp




section \<open>The loaders and the lengths of the three sequences\<close>

lemma mask_frames_length:
  "mask_frames mb zs = Inr (ms, bs) \<Longrightarrow> length ms = length zs \<and> length bs = length zs"
proof (induction zs arbitrary: ms bs)
  case Nil
  then show ?case by simp
next
  case (Cons z zs)
  obtain f m where z: "z = (f, m)" by (cases z)
  from Cons.prems z obtain x y ms' bs'
    where "mask_frames mb zs = Inr (ms', bs')" and "ms = x # ms'" and "bs = y # bs'"
    by (auto split: sum.splits prod.splits)
  with Cons.IH show ?case by simp
qed

lemma shape2_repeat3: "shape2 (repeat3 a) = shape2 a"
  by (cases a) (simp_all add: shape2_def repeat3_def)

lemma shape2_zeros_like: "shape2 (zeros_like a) = shape2 a"
  by (cases a) (simp_all add: shape2_def zeros_like_def)

lemma broadcast_dim_same: "broadcast_dim n n = Some n"
  by (simp add: broadcast_dim_def)

lemma np_where3_same_shape:
  "shape2 c = shape2 y \<Longrightarrow> \<exists>r. np_where3 c x y = Inr r"
  by (cases "shape2 y") (simp add: np_where3_def broadcast_dim_same)

lemma mask_frame_same_shape:
  "shape2 binary_mask = shape2 frame \<Longrightarrow> \<exists>x y. mask_frame mb frame binary_mask = Inr (x, y)"
  using np_where3_same_shape [of "repeat3 binary_mask" frame "zeros_like frame"]
  by (auto simp: mask_frame_def Let_def shape2_repeat3)

lemma mask_frames_total:
  "list_all (\<lambda>(f, m). shape2 m = shape2 f) zs \<Longrightarrow> \<exists>ms bs. mask_frames mb zs = Inr (ms, bs)"
proof (induction zs)
  case Nil
  then show ?case by simp
next
  case (Cons z zs)
  obtain f m where z: "z = (f, m)" by (cases z)
  with Cons.prems have "shape2 m = shape2 f" by simp
  then obtain x y where "mask_frame mb f m = Inr (x, y)"
    using mask_frame_same_shape by blast
  moreover from Cons obtain ms bs where "mask_frames mb zs = Inr (ms, bs)" by auto
  ultimately show ?case using z by simp
qed

lemma shape2_map_map: "shape2 (map (map g) a) = shape2 a"
  by (cases a) (simp_all add: shape2_def)

lemma clamp_bound_le: "clamp_bound n i \<le> n"
  by (auto simp: clamp_bound_def)

lemma take_drop_nths:
  "hi \<le> length xs \<Longrightarrow> take (hi - lo) (drop lo xs) = map ((!) xs) [lo ..< hi]"
  by (rule nth_equalityI) auto

lemma py_slice_indices:
  "py_slice xs a b = map ((!) xs) [clamp_bound (length xs) a ..< clamp_bound (length xs) b]"
  by (simp add: py_slice_def Let_def take_drop_nths clamp_bound_le)

lemma set_py_slice: "set (py_slice xs a b) \<subseteq> set xs"
  by (auto simp: py_slice_def Let_def dest: in_set_takeD in_set_dropD)

lemma read_video_with_mask_total:
  assumes "\<forall>f \<in> set loaded. shape2 f = (h, w)" and "\<forall>m \<in> set masks. shape2 m = (h, w)"
  shows "\<exists>mv bm. read_video_with_mask loaded cap_fps masks mask_id s e mb fps
            = Inr (py_slice loaded s e, mv, bm, if fps = 0 then cap_fps else fps)
          \<and> mask_frames mb (zip (py_slice loaded s e)
                (map (map (map (\<lambda>v. v = mask_id))) (py_slice masks s e))) = Inr (mv, bm)
          \<and> length mv = min (length (py_slice loaded s e)) (length (py_slice masks s e))
          \<and> length bm = min (length (py_slice loaded s e)) (length (py_slice masks s e))"
proof -
  let ?zs = "zip (py_slice loaded s e) (map (map (map (\<lambda>v. v = mask_id))) (py_slice masks s e))"
  have "list_all (\<lambda>(f, m). shape2 m = shape2 f) ?zs"
    unfolding list_all_iff
  proof (clarify)
    fix f m assume "(f, m) \<in> set ?zs"
    then have "f \<in> set (py_slice loaded s e)"
      and "m \<in> set (map (map (map (\<lambda>v. v = mask_id))) (py_slice masks s e))"
      by (auto dest: set_zip_leftD set_zip_rightD)
    then obtain m0 where "f \<in> set (py_slice loaded s e)" and "m0 \<in> set (py_slice masks s e)"
      and m: "m = map (map (\<lambda>v. v = mask_id)) m0"
      by auto
    then have "f \<in> set loaded" and "m0 \<in> set masks"
      using set_py_slice [of loaded s e] set_py_slice [of masks s e] by blast+
    note this m
    with assms show "shape2 m = shape2 f" by (simp add: shape2_map_map)
  qed
  then obtain mv bm where r: "mask_frames mb ?zs = Inr (mv, bm)"
    using mask_frames_total by blast
  from mask_frames_length [OF r] have "length mv = length ?zs" "length bm = length ?zs"
    by simp_all
  with r show ?thesis by (simp add: read_video_with_mask_def Let_def)
qed


lemma keyed_total:
  "\<forall>p \<in> set ps. sort_key_of p = Inr (key p) \<Longrightarrow> keyed ps = Inr (map (\<lambda>p. (key p, p)) ps)"
  by (induction ps) simp_all

lemma keyed_Inr:
  "keyed ps = Inr kps \<Longrightarrow> map snd kps = ps"
proof (induction ps arbitrary: kps)
  case Nil
  then show ?case by simp
next
  case (Cons p ps)
  then show ?case by (auto split: sum.splits)
qed

lemma sort_key_fst_pairs:
  "sort_key fst (map (\<lambda>p. (key p, p)) ps) = map (\<lambda>p. (key p, p)) (sort_key key ps)"
proof (induction ps)
  case Nil
  then show ?case by simp
next
  case (Cons p ps)
  have "insort_key fst (key p, p) (map (\<lambda>p. (key p, p)) qs)
          = map (\<lambda>p. (key p, p)) (insort_key key p qs)" for qs
    by (induction qs) simp_all
  with Cons show ?case by simp
qed

lemma py_sorted_total:
  assumes "\<forall>p \<in> set ps. sort_key_of p = Inr (key p)"
  shows "py_sorted ps = Inr (sort_key key ps)"
  using keyed_total [OF assms]
  by (simp add: py_sorted_def sort_key_fst_pairs comp_def)

lemma py_sorted_mset: "py_sorted ps = Inr qs \<Longrightarrow> mset qs = mset ps"
proof -
  assume a: "py_sorted ps = Inr qs"
  then obtain kps where k: "keyed ps = Inr kps" and q: "qs = map snd (sort_key fst kps)"
    by (auto simp: py_sorted_def split: sum.splits)
  have "mset qs = image_mset snd (mset (sort_key fst kps))" by (simp add: q)
  also have "\<dots> = image_mset snd (mset kps)" by simp
  also have "\<dots> = mset (map snd kps)" by simp
  finally show ?thesis using keyed_Inr [OF k] by simp
qed

lemma py_sorted_length: "py_sorted ps = Inr qs \<Longrightarrow> length qs = length ps"
  using py_sorted_mset [of ps qs] by (metis size_mset)

lemma open_all_Inr: "open_all rd ps = Inr xs \<Longrightarrow> map Some xs = map rd ps"
proof (induction ps arbitrary: xs)
  case Nil
  then show ?case by simp
next
  case (Cons p ps)
  then show ?case by (auto split: option.splits sum.splits)
qed

lemma open_all_length: "open_all rd ps = Inr xs \<Longrightarrow> length xs = length ps"
  using open_all_Inr [of rd ps xs] by (metis length_map)

lemma open_all_total:
  "\<forall>p \<in> set ps. rd p = Some (img p) \<Longrightarrow> open_all rd ps = Inr (map img ps)"
  by (induction ps) simp_all

lemma loader_InrD:
  assumes "read_video_with_mask_from_frame st video_path mask_path s e mb fps = Inr (v, mv, bm, f)"
  obtains fs ms frame_paths mask_paths masks
  where "listdir st video_path = Some fs" and "listdir st mask_path = Some ms"
    and "py_sorted (map (path_join video_path) (filter frame_file fs)) = Inr frame_paths"
    and "py_sorted (map (path_join mask_path) (filter mask_file ms)) = Inr mask_paths"
    and "open_all (open_RGB st) frame_paths = Inr v"
    and "open_all (open_L st) mask_paths = Inr masks"
    and "mask_frames mb (zip v (map (map (map (\<lambda>x. x = 255))) masks)) = Inr (mv, bm)"
    and "f = fps"
  using assms unfolding read_video_with_mask_from_frame_def Let_def
  by (auto split: option.splits sum.splits prod.splits)

lemma loader_lengths:
  assumes "read_video_with_mask_from_frame st video_path mask_path s e mb fps = Inr (v, mv, bm, f)"
    and "listdir st video_path = Some fs" and "listdir st mask_path = Some ms"
  shows "length v = length (filter frame_file fs)
    \<and> length mv = min (length (filter frame_file fs)) (length (filter mask_file ms))
    \<and> length bm = min (length (filter frame_file fs)) (length (filter mask_file ms))"
proof -
  from assms(1) obtain fs' ms' frame_paths mask_paths masks
    where l: "listdir st video_path = Some fs'" "listdir st mask_path = Some ms'"
      and sf: "py_sorted (map (path_join video_path) (filter frame_file fs')) = Inr frame_paths"
      and sm: "py_sorted (map (path_join mask_path) (filter mask_file ms')) = Inr mask_paths"
      and ov: "open_all (open_RGB st) frame_paths = Inr v"
      and om: "open_all (open_L st) mask_paths = Inr masks"
      and mf: "mask_frames mb (zip v (map (map (map (\<lambda>x. x = 255))) masks)) = Inr (mv, bm)"
    by (rule loader_InrD)
  from l assms(2,3) have eq: "fs' = fs" "ms' = ms" by simp_all
  from py_sorted_length [OF sf] open_all_length [OF ov] eq
  have lv: "length v = length (filter frame_file fs)" by simp
  from py_sorted_length [OF sm] open_all_length [OF om] eq
  have lm: "length masks = length (filter mask_file ms)" by simp
  from mask_frames_length [OF mf] lv lm show ?thesis by simp
qed


lemma py_slice_step_length:
  "py_slice_step xs k = Inr ys \<Longrightarrow> length ys = (length xs + nat \<bar>k\<bar> - 1) div nat \<bar>k\<bar>"
  by (auto simp: py_slice_step_def length_every split: if_splits)

lemma downsample_lengths:
  assumes "downsample fps d (v, m, b) = Inr (d', v', m', b')"
    and "length v = length m" and "length m = length b"
  shows "length v' = length m' \<and> length m' = length b'"
proof -
  from assms(1) obtain k where "py_slice_step v k = Inr v'" "py_slice_step m k = Inr m'"
    "py_slice_step b k = Inr b'"
    by (auto simp: downsample_def split: sum.splits prod.splits)
  then show ?thesis using assms(2,3) by (simp add: py_slice_step_length)
qed

lemma py_slice_to_length:
  "length xs = length ys \<Longrightarrow> length (py_slice_to xs n) = length (py_slice_to ys n)"
  by (cases n) (simp_all add: py_slice_to_def)

lemma truncate_clip_lengths:
  assumes "truncate_clip lv fr (v, m, b) = Inr (v', m', b')"
    and "length v = length m" and "length m = length b"
  shows "length v' = length m' \<and> length m' = length b'"
  using assms py_slice_to_length [of v m fr] py_slice_to_length [of m b fr]
  by (auto simp: truncate_clip_def split: if_splits option.splits)

lemma resample_lengths:
  assumes "resample fps d lv fr (v, m, b) = Inr (d', v', m', b')"
    and "length v = length m" and "length m = length b"
  shows "length v' = length m' \<and> length m' = length b'"
proof -
  from assms(1) obtain v1 m1 b1 where ds: "downsample fps d (v, m, b) = Inr (d', v1, m1, b1)"
    and tr: "truncate_clip lv fr (v1, m1, b1) = Inr (v', m', b')"
    by (auto simp: resample_def split: sum.splits prod.splits)
  from downsample_lengths [OF ds assms(2,3)] truncate_clip_lengths [OF tr] show ?thesis by simp
qed

lemma setitem0_length: "setitem0 xs v = Inr ys \<Longrightarrow> length ys = length xs"
  by (auto simp: setitem0_def split: list.splits)

lemma first_frame_policy_length:
  "first_frame_policy fg mb b = Inr (g, b') \<Longrightarrow> length b' = length b"
  by (auto simp: first_frame_policy_def split: if_splits sum.splits dest: setitem0_length)

lemma first_frame_inpainting_lengths:
  "first_frame_inpainting ext im ds (v, m, b) = Inr (g, v', m', b') \<Longrightarrow>
     length v' = length v \<and> length m' = length m \<and> length b' = length b"
  by (auto simp: first_frame_inpainting_def Let_def split: if_splits sum.splits
      dest: setitem0_length)

text \<open>
  Claim C1, as amended. When the source has no more frames than masks (for the video-file
  loader: after both were sliced), each loader returns three sequences of one length; the
  still-image substitution, the resampler and the first-frame policy each return
  sequences of one length when given sequences of one length.
\<close>

theorem aligned_lengths_after_each_stage:
  "(read_video_with_mask loaded cap_fps masks mask_id skip_frames_start skip_frames_end
        mask_background fps = Inr (video, masked_video, binary_masks, fps')
      \<and> length (py_slice loaded skip_frames_start skip_frames_end)
          \<le> length (py_slice masks skip_frames_start skip_frames_end)
      \<longrightarrow> length video = length masked_video \<and> length masked_video = length binary_masks)
   \<and> (read_video_with_mask_from_frame st video_path mask_path skip_frames_start skip_frames_end
        mask_background fps = Inr (video, masked_video, binary_masks, fps')
      \<and> listdir st video_path = Some fs \<and> listdir st mask_path = Some ms
      \<and> length (filter frame_file fs) \<le> length (filter mask_file ms)
      \<longrightarrow> length video = length masked_video \<and> length masked_video = length binary_masks)
   \<and> (length video = length masked_video \<and> length masked_video = length binary_masks
      \<longrightarrow>
        (first_frame_inpainting ext img_inpainting_model dilate_size
            (video, masked_video, binary_masks) = Inr (gv, v1, m1, b1)
          \<longrightarrow> length v1 = length m1 \<and> length m1 = length b1)
      \<and> (resample fps down_sample_fps long_video frames (video, masked_video, binary_masks)
            = Inr (d, v2, m2, b2)
          \<longrightarrow> length v2 = length m2 \<and> length m2 = length b2)
      \<and> (first_frame_policy first_frame_gt mask_background binary_masks = Inr (gm, b3)
          \<longrightarrow> length video = length masked_video \<and> length masked_video = length b3))"
proof (intro conjI impI)
  assume a: "read_video_with_mask loaded cap_fps masks mask_id skip_frames_start skip_frames_end
        mask_background fps = Inr (video, masked_video, binary_masks, fps')
      \<and> length (py_slice loaded skip_frames_start skip_frames_end)
          \<le> length (py_slice masks skip_frames_start skip_frames_end)"
  then have v: "video = py_slice loaded skip_frames_start skip_frames_end"
    and mf: "mask_frames mask_background (zip (py_slice loaded skip_frames_start skip_frames_end)
         (map (map (map (\<lambda>v. v = mask_id))) (py_slice masks skip_frames_start skip_frames_end)))
       = Inr (masked_video, binary_masks)"
    by (auto simp: read_video_with_mask_def Let_def split: sum.splits prod.splits)
  from mask_frames_length [OF mf] v a
  show "length video = length masked_video" and "length masked_video = length binary_masks"
    by simp_all
next
  assume a: "read_video_with_mask_from_frame st video_path mask_path skip_frames_start
        skip_frames_end mask_background fps = Inr (video, masked_video, binary_masks, fps')
      \<and> listdir st video_path = Some fs \<and> listdir st mask_path = Some ms
      \<and> length (filter frame_file fs) \<le> length (filter mask_file ms)"
  then have "length video = length (filter frame_file fs)
    \<and> length masked_video = min (length (filter frame_file fs)) (length (filter mask_file ms))
    \<and> length binary_masks = min (length (filter frame_file fs)) (length (filter mask_file ms))"
    using loader_lengths by blast
  with a show "length video = length masked_video"
    and "length masked_video = length binary_masks"
    by simp_all
next
  assume eq: "length video = length masked_video \<and> length masked_video = length binary_masks"
  {
    assume "first_frame_inpainting ext img_inpainting_model dilate_size
            (video, masked_video, binary_masks) = Inr (gv, v1, m1, b1)"
    from first_frame_inpainting_lengths [OF this] eq
    show "length v1 = length m1" and "length m1 = length b1" by simp_all
  }
  {
    assume "resample fps down_sample_fps long_video frames (video, masked_video, binary_masks)
            = Inr (d, v2, m2, b2)"
    from resample_lengths [OF this] eq
    show "length v2 = length m2" and "length m2 = length b2" by simp_all
  }
  {
    assume "first_frame_policy first_frame_gt mask_background binary_masks = Inr (gm, b3)"
    from first_frame_policy_length [OF this] eq
    show "length video = length masked_video" and "length masked_video = length b3" by simp_all
  }
qed


lemma loader_run:
  assumes "listdir st video_path = Some fs" and "listdir st mask_path = Some ms"
    and "\<forall>p \<in> set (map (path_join video_path) (filter frame_file fs)).
           sort_key_of p = Inr (key p) \<and> open_RGB st p = Some (F p)"
    and "\<forall>p \<in> set (map (path_join mask_path) (filter mask_file ms)).
           sort_key_of p = Inr (key p) \<and> open_L st p = Some (M p)"
  shows "read_video_with_mask_from_frame st video_path mask_path s e mb fps =
     (case mask_frames mb
             (zip (map F (sort_key key (map (path_join video_path) (filter frame_file fs))))
                  (map (\<lambda>p. map (map (\<lambda>v. v = 255)) (M p))
                       (sort_key key (map (path_join mask_path) (filter mask_file ms))))) of
        Inl e \<Rightarrow> Inl e
      | Inr (mv, bm) \<Rightarrow>
          Inr (map F (sort_key key (map (path_join video_path) (filter frame_file fs))),
               mv, bm, fps))"
proof -
  let ?FP = "map (path_join video_path) (filter frame_file fs)"
  let ?MP = "map (path_join mask_path) (filter mask_file ms)"
  have sf: "py_sorted ?FP = Inr (sort_key key ?FP)"
    using assms(3) by (intro py_sorted_total) blast
  have sm: "py_sorted ?MP = Inr (sort_key key ?MP)"
    using assms(4) by (intro py_sorted_total) blast
  have "\<forall>p \<in> set (sort_key key ?FP). open_RGB st p = Some (F p)"
    using assms(3) by simp
  then have ov: "open_all (open_RGB st) (sort_key key ?FP) = Inr (map F (sort_key key ?FP))"
    by (rule open_all_total)
  have "\<forall>p \<in> set (sort_key key ?MP). open_L st p = Some (M p)"
    using assms(4) by simp
  then have om: "open_all (open_L st) (sort_key key ?MP) = Inr (map M (sort_key key ?MP))"
    by (rule open_all_total)
  show ?thesis
    unfolding read_video_with_mask_from_frame_def Let_def
    by (simp add: assms(1,2) sf sm ov om comp_def)
qed


lemma loader_total:
  assumes ls: "listdir st video_path = Some fs" "listdir st mask_path = Some ms"
    and fr: "\<forall>f \<in> set fs. frame_file f \<longrightarrow>
           (\<exists>k img. sort_key_of (path_join video_path f) = Inr k
              \<and> open_RGB st (path_join video_path f) = Some img \<and> shape2 img = (h, w))"
    and mk: "\<forall>f \<in> set ms. mask_file f \<longrightarrow>
           (\<exists>k img. sort_key_of (path_join mask_path f) = Inr k
              \<and> open_L st (path_join mask_path f) = Some img \<and> shape2 img = (h, w))"
  shows "\<exists>v mv bm. read_video_with_mask_from_frame st video_path mask_path s e mb fps
             = Inr (v, mv, bm, fps)
          \<and> length v = length (filter frame_file fs)
          \<and> length mv = min (length (filter frame_file fs)) (length (filter mask_file ms))
          \<and> length bm = min (length (filter frame_file fs)) (length (filter mask_file ms))"
proof -
  define key where "key p = (case sort_key_of p of Inr k \<Rightarrow> k | Inl e \<Rightarrow> 0)" for p
  define F where "F p = the (open_RGB st p)" for p
  define M where "M p = the (open_L st p)" for p
  let ?FP = "map (path_join video_path) (filter frame_file fs)"
  let ?MP = "map (path_join mask_path) (filter mask_file ms)"
  have a: "\<forall>p \<in> set ?FP. sort_key_of p = Inr (key p) \<and> open_RGB st p = Some (F p)"
    using fr by (fastforce simp: key_def F_def)
  have b: "\<forall>p \<in> set ?MP. sort_key_of p = Inr (key p) \<and> open_L st p = Some (M p)"
    using mk by (fastforce simp: key_def M_def)
  have sa: "\<forall>p \<in> set ?FP. shape2 (F p) = (h, w)"
    using fr by (fastforce simp: F_def)
  have sb: "\<forall>p \<in> set ?MP. shape2 (M p) = (h, w)"
    using mk by (fastforce simp: M_def)
  let ?zs = "zip (map F (sort_key key ?FP))
                 (map (\<lambda>p. map (map (\<lambda>v. v = 255)) (M p)) (sort_key key ?MP))"
  have "list_all (\<lambda>(f, m). shape2 m = shape2 f) ?zs"
    unfolding list_all_iff
  proof (clarify)
    fix f m assume "(f, m) \<in> set ?zs"
    then have "f \<in> set (map F (sort_key key ?FP))"
      and "m \<in> set (map (\<lambda>p. map (map (\<lambda>v. v = 255)) (M p)) (sort_key key ?MP))"
      by (auto dest: set_zip_leftD set_zip_rightD)
    then obtain p q where "p \<in> set ?FP" "f = F p" "q \<in> set ?MP"
      "m = map (map (\<lambda>v. v = 255)) (M q)"
      by auto
    moreover from this sa sb have "shape2 (F p) = (h, w)" and "shape2 (M q) = (h, w)"
      by blast+
    ultimately show "shape2 m = shape2 f" by (simp add: shape2_map_map)
  qed
  then obtain mv bm where r: "mask_frames mb ?zs = Inr (mv, bm)"
    using mask_frames_total by blast
  from mask_frames_length [OF r]
  have "length mv = min (length (filter frame_file fs)) (length (filter mask_file ms))"
    and "length bm = min (length (filter frame_file fs)) (length (filter mask_file ms))"
    by simp_all
  moreover have "read_video_with_mask_from_frame st video_path mask_path s e mb fps
      = Inr (map F (sort_key key ?FP), mv, bm, fps)"
    by (simp add: loader_run [OF ls a b] r)
  ultimately show ?thesis by simp
qed

text \<open>
  Claim C6, as amended. A difference between the number of frames and the number of masks
  is no error. When all frames and masks have one shape, the video-file loader returns a
  clip whatever the two lengths are; so does the frame-directory loader when every
  matching file has an integer suffix and can be read. The frame sequence is returned
  whole, the masked frames and the binary masks have the length of the shorter source.
\<close>

theorem loader_truncates_silently:
  "((\<forall>f \<in> set loaded. shape2 f = (h, w)) \<and> (\<forall>m \<in> set masks. shape2 m = (h, w)) \<longrightarrow>
      (\<exists>mv bm. read_video_with_mask loaded cap_fps masks mask_id skip_frames_start
                   skip_frames_end mask_background fps
                 = Inr (py_slice loaded skip_frames_start skip_frames_end, mv, bm,
                        if fps = 0 then cap_fps else fps)
         \<and> length mv = min (length (py_slice loaded skip_frames_start skip_frames_end))
                           (length (py_slice masks skip_frames_start skip_frames_end))
         \<and> length bm = min (length (py_slice loaded skip_frames_start skip_frames_end))
                           (length (py_slice masks skip_frames_start skip_frames_end))))
   \<and> (listdir st video_path = Some fs \<and> listdir st mask_path = Some ms
      \<and> (\<forall>f \<in> set fs. frame_file f \<longrightarrow>
           (\<exists>k img. sort_key_of (path_join video_path f) = Inr k
              \<and> open_RGB st (path_join video_path f) = Some img \<and> shape2 img = (h, w)))
      \<and> (\<forall>f \<in> set ms. mask_file f \<longrightarrow>
           (\<exists>k img. sort_key_of (path_join mask_path f) = Inr k
              \<and> open_L st (path_join mask_path f) = Some img \<and> shape2 img = (h, w)))
      \<longrightarrow>
      (\<exists>v mv bm. read_video_with_mask_from_frame st video_path mask_path skip_frames_start
                     skip_frames_end mask_background fps
                   = Inr (v, mv, bm, fps)
          \<and> length v = length (filter frame_file fs)
          \<and> length mv = min (length (filter frame_file fs)) (length (filter mask_file ms))
          \<and> length bm = min (length (filter frame_file fs)) (length (filter mask_file ms))))"
proof (intro conjI impI)
  assume "(\<forall>f \<in> set loaded. shape2 f = (h, w)) \<and> (\<forall>m \<in> set masks. shape2 m = (h, w))"
  then have "\<forall>f \<in> set loaded. shape2 f = (h, w)" and "\<forall>m \<in> set masks. shape2 m = (h, w)"
    by blast+
  from read_video_with_mask_total [OF this]
  show "\<exists>mv bm. read_video_with_mask loaded cap_fps masks mask_id skip_frames_start
                   skip_frames_end mask_background fps
                 = Inr (py_slice loaded skip_frames_start skip_frames_end, mv, bm,
                        if fps = 0 then cap_fps else fps)
         \<and> length mv = min (length (py_slice loaded skip_frames_start skip_frames_end))
                           (length (py_slice masks skip_frames_start skip_frames_end))
         \<and> length bm = min (length (py_slice loaded skip_frames_start skip_frames_end))
                           (length (py_slice masks skip_frames_start skip_frames_end))"
    by blast
next
  assume a: "listdir st video_path = Some fs \<and> listdir st mask_path = Some ms
      \<and> (\<forall>f \<in> set fs. frame_file f \<longrightarrow>
           (\<exists>k img. sort_key_of (path_join video_path f) = Inr k
              \<and> open_RGB st (path_join video_path f) = Some img \<and> shape2 img = (h, w)))
      \<and> (\<forall>f \<in> set ms. mask_file f \<longrightarrow>
           (\<exists>k img. sort_key_of (path_join mask_path f) = Inr k
              \<and> open_L st (path_join mask_path f) = Some img \<and> shape2 img = (h, w)))"
  show "\<exists>v mv bm. read_video_with_mask_from_frame st video_path mask_path skip_frames_start
                     skip_frames_end mask_background fps
                   = Inr (v, mv, bm, fps)
          \<and> length v = length (filter frame_file fs)
          \<and> length mv = min (length (filter frame_file fs)) (length (filter mask_file ms))
          \<and> length bm = min (length (filter frame_file fs)) (length (filter mask_file ms))"
    by (rule loader_total) (use a in blast)+
qed


lemma zip_map_same: "zip (map f xs) (map g xs) = map (\<lambda>x. (f x, g x)) xs"
  by (induction xs) simp_all

text \<open>
  Claim C5, as amended, for the video-file loader. With frames and masks of one shape and
  equally many of both, the loader returns the source indices \<open>lo, ..., hi - 1\<close> in all
  three sequences, where \<open>lo\<close> and \<open>hi\<close> are \<^verbatim>\<open>skip_frames_start\<close> and
  \<^verbatim>\<open>skip_frames_end\<close> read as slice bounds: a bound that is not negative is cut at the
  number of frames, a negative bound counts from the end.
\<close>

theorem read_video_with_mask_range:
  assumes "\<forall>f \<in> set loaded. shape2 f = (h, w)" and "\<forall>m \<in> set masks. shape2 m = (h, w)"
    and "length masks = length loaded"
  shows "\<exists>lo hi mv bm.
      lo = clamp_bound (length loaded) skip_frames_start
    \<and> hi = clamp_bound (length loaded) skip_frames_end
    \<and> read_video_with_mask loaded cap_fps masks mask_id skip_frames_start skip_frames_end
          mask_background fps
        = Inr (map ((!) loaded) [lo ..< hi], mv, bm, if fps = 0 then cap_fps else fps)
    \<and> mask_frames mask_background
          (map (\<lambda>i. (loaded ! i, map (map (\<lambda>v. v = mask_id)) (masks ! i))) [lo ..< hi])
        = Inr (mv, bm)
    \<and> length mv = hi - lo \<and> length bm = hi - lo \<and> hi \<le> length loaded
    \<and> (0 \<le> skip_frames_start \<longrightarrow> lo = min (nat skip_frames_start) (length loaded))
    \<and> (skip_frames_start < 0 \<longrightarrow> lo = nat (int (length loaded) + skip_frames_start))
    \<and> (0 \<le> skip_frames_end \<longrightarrow> hi = min (nat skip_frames_end) (length loaded))
    \<and> (skip_frames_end < 0 \<longrightarrow> hi = nat (int (length loaded) + skip_frames_end))"
proof -
  define lo where "lo = clamp_bound (length loaded) skip_frames_start"
  define hi where "hi = clamp_bound (length loaded) skip_frames_end"
  have v: "py_slice loaded skip_frames_start skip_frames_end = map ((!) loaded) [lo ..< hi]"
    by (simp add: py_slice_indices lo_def hi_def)
  have m: "py_slice masks skip_frames_start skip_frames_end = map ((!) masks) [lo ..< hi]"
    by (simp add: py_slice_indices lo_def hi_def assms(3))
  have z: "zip (py_slice loaded skip_frames_start skip_frames_end)
             (map (map (map (\<lambda>v. v = mask_id))) (py_slice masks skip_frames_start skip_frames_end))
         = map (\<lambda>i. (loaded ! i, map (map (\<lambda>v. v = mask_id)) (masks ! i))) [lo ..< hi]"
    by (simp add: v m zip_map_same comp_def)
  from read_video_with_mask_total [OF assms(1,2), of cap_fps mask_id skip_frames_start
      skip_frames_end mask_background fps]
  obtain mv bm where
    r: "read_video_with_mask loaded cap_fps masks mask_id skip_frames_start skip_frames_end
          mask_background fps
        = Inr (map ((!) loaded) [lo ..< hi], mv, bm, if fps = 0 then cap_fps else fps)"
    and f: "mask_frames mask_background
          (map (\<lambda>i. (loaded ! i, map (map (\<lambda>v. v = mask_id)) (masks ! i))) [lo ..< hi])
        = Inr (mv, bm)"
    and l: "length mv = hi - lo" "length bm = hi - lo"
    unfolding z unfolding v m by auto
  have b: "hi \<le> length loaded" by (simp add: hi_def clamp_bound_le)
  have c: "0 \<le> skip_frames_start \<longrightarrow> lo = min (nat skip_frames_start) (length loaded)"
    "skip_frames_start < 0 \<longrightarrow> lo = nat (int (length loaded) + skip_frames_start)"
    "0 \<le> skip_frames_end \<longrightarrow> hi = min (nat skip_frames_end) (length loaded)"
    "skip_frames_end < 0 \<longrightarrow> hi = nat (int (length loaded) + skip_frames_end)"
    by (auto simp: lo_def hi_def clamp_bound_def)
  from r f l b c lo_def hi_def show ?thesis by blast
qed


text \<open>
  The amended claim C1 on a source of two frames and two masks.
\<close>

theorem aligned_lengths_after_each_stage_witness:
  "read_video_with_mask [[[(0, 7, 9)]], [[(1, 7, 9)]]] 24 [[[5]], [[6]]] 5 0 2 False 8
     = Inr ([[[(0, 7, 9)]], [[(1, 7, 9)]]], [[[(0, 0, 0)]], [[(1, 7, 9)]]],
            [[[(255, 255, 255)]], [[(0, 0, 0)]]], 8)
   \<and> read_video_with_mask_from_frame
       (demo_storage [''frame_1.png'', ''frame_0.png''] [''seg_mask_0.png'', ''seg_mask_1.png''])
       ''../../data/droid_2/images/'' ''../../data/droid_2/masks/'' 0 2 False 8
     = Inr ([[[(0, 7, 9)]], [[(1, 7, 9)]]], [[[(0, 0, 0)]], [[(1, 7, 9)]]],
            [[[(255, 255, 255)]], [[(0, 0, 0)]]], 8)
   \<and> length ([[[(0, 7, 9)]], [[(1, 7, 9)]]] :: image list)
       = length ([[[(0, 0, 0)]], [[(1, 7, 9)]]] :: image list)
   \<and> length ([[[(0, 0, 0)]], [[(1, 7, 9)]]] :: image list)
       = length ([[[(255, 255, 255)]], [[(0, 0, 0)]]] :: image list)
   \<and> first_frame_inpainting (demo_collaborators (demo_storage [] [])) (Some ''flux'') (- 1)
       ([[[(0, 7, 9)]], [[(1, 7, 9)]]], [[[(0, 0, 0)]], [[(1, 7, 9)]]],
        [[[(255, 255, 255)]], [[(0, 0, 0)]]])
     = Inr (Some [[(0, 7, 9)]], [[[(255, 255, 255)]], [[(1, 7, 9)]]],
            [[[(255, 255, 255)]], [[(1, 7, 9)]]], [[[(255, 255, 255)]], [[(0, 0, 0)]]])
   \<and> resample 8 0 False (Some 2)
       ([[[(0, 7, 9)]], [[(1, 7, 9)]]] :: image list, [[[(0, 0, 0)]], [[(1, 7, 9)]]] :: image list,
        [[[(255, 255, 255)]], [[(0, 0, 0)]]] :: image list)
     = Inr (8, [[[(0, 7, 9)]], [[(1, 7, 9)]]], [[[(0, 0, 0)]], [[(1, 7, 9)]]],
            [[[(255, 255, 255)]], [[(0, 0, 0)]]])
   \<and> first_frame_policy True False [[[(255, 255, 255)]], [[(0, 0, 0)]]]
     = Inr (Some [[(255, 255, 255)]], [[[(0, 0, 0)]], [[(0, 0, 0)]]])
   \<and> length ([[[(0, 0, 0)]], [[(1, 7, 9)]]] :: image list)
       = length ([[[(0, 0, 0)]], [[(0, 0, 0)]]] :: image list)"
proof -
  let ?V = "[[[(0, 7, 9)]], [[(1, 7, 9)]]] :: image list"
  let ?M = "[[[(0, 0, 0)]], [[(1, 7, 9)]]] :: image list"
  let ?B = "[[[(255, 255, 255)]], [[(0, 0, 0)]]] :: image list"
  let ?st = "demo_storage [''frame_1.png'', ''frame_0.png''] [''seg_mask_0.png'', ''seg_mask_1.png'']"
  have e1: "read_video_with_mask ?V 24 [[[5]], [[6]]] 5 0 2 False 8 = Inr (?V, ?M, ?B, 8)"
    by code_simp
  have h1: "length (py_slice ?V 0 2) \<le> length (py_slice [[[5 :: int]], [[6]]] 0 2)"
    by (simp add: py_slice_def clamp_bound_def)
  have e2: "read_video_with_mask_from_frame ?st ''../../data/droid_2/images/''
       ''../../data/droid_2/masks/'' 0 2 False 8 = Inr (?V, ?M, ?B, 8)"
    by code_simp
  have l2: "listdir ?st ''../../data/droid_2/images/'' = Some [''frame_1.png'', ''frame_0.png'']"
    "listdir ?st ''../../data/droid_2/masks/'' = Some [''seg_mask_0.png'', ''seg_mask_1.png'']"
    by (simp_all add: demo_storage_def)
  have h2: "length (filter frame_file [''frame_1.png'', ''frame_0.png''])
      \<le> length (filter mask_file [''seg_mask_0.png'', ''seg_mask_1.png''])"
    by code_simp
  have e3: "first_frame_inpainting (demo_collaborators (demo_storage [] [])) (Some ''flux'') (- 1)
       (?V, ?M, ?B)
     = Inr (Some [[(0, 7, 9)]], [[[(255, 255, 255)]], [[(1, 7, 9)]]],
            [[[(255, 255, 255)]], [[(1, 7, 9)]]], ?B)"
    by code_simp
  have e4: "resample 8 0 False (Some 2) (?V, ?M, ?B) = Inr (8, ?V, ?M, ?B)"
    by code_simp
  have e5: "first_frame_policy True False ?B
     = Inr (Some [[(255, 255, 255)]], [[[(0, 0, 0)]], [[(0, 0, 0)]]])"
    by code_simp
  note t = aligned_lengths_after_each_stage [where loaded = ?V and cap_fps = 24
      and masks = "[[[5]], [[6]]]" and mask_id = 5 and skip_frames_start = 0
      and skip_frames_end = 2 and mask_background = False and fps = 8 and fps' = 8
      and video = ?V and masked_video = ?M and binary_masks = ?B and st = ?st
      and video_path = "''../../data/droid_2/images/''"
      and mask_path = "''../../data/droid_2/masks/''"
      and fs = "[''frame_1.png'', ''frame_0.png'']"
      and ms = "[''seg_mask_0.png'', ''seg_mask_1.png'']"
      and ext = "demo_collaborators (demo_storage [] [])"
      and img_inpainting_model = "Some ''flux''" and dilate_size = "- 1"
      and gv = "Some [[(0, 7, 9)]]" and ?v1.0 = "[[[(255, 255, 255)]], [[(1, 7, 9)]]]"
      and ?m1.0 = "[[[(255, 255, 255)]], [[(1, 7, 9)]]]" and ?b1.0 = ?B
      and down_sample_fps = 0 and long_video = False and frames = "Some 2" and d = 8
      and ?v2.0 = ?V and ?m2.0 = ?M and ?b2.0 = ?B and first_frame_gt = True
      and gm = "Some [[(255, 255, 255)]]" and ?b3.0 = "[[[(0, 0, 0)]], [[(0, 0, 0)]]]"]
  from t e1 h1 have a: "length ?V = length ?M \<and> length ?M = length ?B" by blast
  from t a e5 have b: "length ?M = length ([[[(0, 0, 0)]], [[(0, 0, 0)]]] :: image list)" by blast
  from e1 e2 e3 e4 e5 a b show ?thesis by blast
qed

text \<open>
  Claim C1 as stated fails after the loader: from a directory with two frames and one
  mask it returns two frames, one masked frame and one binary mask.
\<close>

theorem loader_unequal_lengths_counterexample:
  "read_video_with_mask_from_frame
       (demo_storage [''frame_0.png'', ''frame_1.png''] [''seg_mask_0.png''])
       ''../../data/droid_2/images/'' ''../../data/droid_2/masks/'' 0 (- 1) False 8
     = Inr ([[[(0, 7, 9)]], [[(1, 7, 9)]]], [[[(0, 0, 0)]]], [[[(255, 255, 255)]]], 8)
   \<and> length ([[[(0, 7, 9)]], [[(1, 7, 9)]]] :: image list)
       \<noteq> length ([[[(0, 0, 0)]]] :: image list)"
  by code_simp

text \<open>
  The amended claim C6 on two frames and one mask, for both loaders.
\<close>

theorem loader_truncates_silently_witness:
  "(\<exists>mv bm. read_video_with_mask [[[(0, 7, 9)]], [[(1, 7, 9)]]] 24 [[[5]]] 5 0 2 False 0
                = Inr (py_slice [[[(0, 7, 9)]], [[(1, 7, 9)]]] 0 2, mv, bm, 24)
        \<and> length mv = 1 \<and> length bm = 1)
   \<and> (\<exists>v mv bm. read_video_with_mask_from_frame
                  (demo_storage [''frame_0.png'', ''notes.txt'', ''frame_1.png''] [''seg_mask_0.png''])
                  ''../../data/droid_2/images/'' ''../../data/droid_2/masks/'' 0 (- 1) True 8
                = Inr (v, mv, bm, 8)
        \<and> length v = 2 \<and> length mv = 1 \<and> length bm = 1)"
proof -
  let ?V = "[[[(0, 7, 9)]], [[(1, 7, 9)]]] :: image list"
  let ?fs = "[''frame_0.png'', ''notes.txt'', ''frame_1.png'']"
  let ?ms = "[''seg_mask_0.png'']"
  let ?st = "demo_storage ?fs ?ms"
  let ?vp = "''../../data/droid_2/images/''"
  let ?mp = "''../../data/droid_2/masks/''"
  have s1: "(\<forall>f \<in> set ?V. shape2 f = (1, 1)) \<and> (\<forall>m \<in> set [[[5 :: int]]]. shape2 m = (1, 1))"
    by (simp add: shape2_def)
  have l1: "min (length (py_slice ?V 0 2)) (length (py_slice [[[5 :: int]]] 0 2)) = 1"
    by (simp add: py_slice_def clamp_bound_def)
  have ff: "frame_file ''frame_0.png''" "\<not> frame_file ''notes.txt''" "frame_file ''frame_1.png''"
    "mask_file ''seg_mask_0.png''"
    by code_simp+
  have k: "sort_key_of (path_join ?vp ''frame_0.png'') = Inr 0"
    "sort_key_of (path_join ?vp ''frame_1.png'') = Inr 1"
    "sort_key_of (path_join ?mp ''seg_mask_0.png'') = Inr 0"
    by code_simp+
  have o: "open_RGB ?st (path_join ?vp ''frame_0.png'') = Some [[(0, 7, 9)]]"
    "open_RGB ?st (path_join ?vp ''frame_1.png'') = Some [[(1, 7, 9)]]"
    "open_L ?st (path_join ?mp ''seg_mask_0.png'') = Some [[255]]"
    by code_simp+
  have sh: "shape2 ([[(0, 7, 9)]] :: image) = (1, 1)" "shape2 ([[(1, 7, 9)]] :: image) = (1, 1)"
    "shape2 ([[255]] :: gray_image) = (1, 1)"
    by (simp_all add: shape2_def)
  have s2: "listdir ?st ?vp = Some ?fs \<and> listdir ?st ?mp = Some ?ms
      \<and> (\<forall>f \<in> set ?fs. frame_file f \<longrightarrow>
           (\<exists>k img. sort_key_of (path_join ?vp f) = Inr k
              \<and> open_RGB ?st (path_join ?vp f) = Some img \<and> shape2 img = (1, 1)))
      \<and> (\<forall>f \<in> set ?ms. mask_file f \<longrightarrow>
           (\<exists>k img. sort_key_of (path_join ?mp f) = Inr k
              \<and> open_L ?st (path_join ?mp f) = Some img \<and> shape2 img = (1, 1)))"
    using ff k o sh by (simp add: demo_storage_def)
  have c: "length (filter frame_file ?fs) = 2" "length (filter mask_file ?ms) = 1"
    using ff by simp_all
  note t = loader_truncates_silently [where loaded = ?V and h = 1 and w = 1
      and masks = "[[[5]]]" and cap_fps = 24 and mask_id = 5 and skip_frames_start = 0
      and skip_frames_end = 2 and mask_background = False and fps = 0]
  note u = loader_truncates_silently [where st = ?st and video_path = ?vp and mask_path = ?mp
      and fs = ?fs and ms = ?ms and h = 1 and w = 1 and skip_frames_start = 0
      and skip_frames_end = "- 1" and mask_background = True and fps = 8]
  from t [THEN conjunct1, THEN mp, OF s1] l1 have a: "\<exists>mv bm. read_video_with_mask ?V 24 [[[5]]] 5 0 2 False 0
                = Inr (py_slice ?V 0 2, mv, bm, 24) \<and> length mv = 1 \<and> length bm = 1"
    by simp
  from u [THEN conjunct2, THEN mp, OF s2] c have b: "\<exists>v mv bm. read_video_with_mask_from_frame ?st ?vp ?mp 0 (- 1) True 8
                = Inr (v, mv, bm, 8) \<and> length v = 2 \<and> length mv = 1 \<and> length bm = 1"
    by simp
  from a b show ?thesis by blast
qed

text \<open>
  Claim C6 as stated fails: given two frames and one mask the video-file loader returns a
  clip whose masked frames and binary masks are cut to one entry.
\<close>

theorem no_alignment_error_counterexample:
  "read_video_with_mask [[[(0, 7, 9)]], [[(1, 7, 9)]]] 24 [[[5]]] 5 0 2 False 0
     = Inr ([[[(0, 7, 9)]], [[(1, 7, 9)]]], [[[(0, 0, 0)]]], [[[(255, 255, 255)]]], 24)"
  by code_simp

text \<open>
  The amended claim C5 on three frames with the bounds 1 and 3.
\<close>

theorem read_video_with_mask_range_witness:
  "\<exists>mv bm.
      read_video_with_mask [[[(0, 7, 9)]], [[(1, 7, 9)]], [[(2, 7, 9)]]] 24
          [[[5]], [[6]], [[5]]] 5 1 3 False 0
        = Inr ([[[(1, 7, 9)]], [[(2, 7, 9)]]], mv, bm, 24)
    \<and> length mv = 2 \<and> length bm = 2"
proof -
  let ?V = "[[[(0, 7, 9)]], [[(1, 7, 9)]], [[(2, 7, 9)]]] :: image list"
  let ?Ms = "[[[5]], [[6]], [[5]]] :: int raster list"
  have s: "\<forall>f \<in> set ?V. shape2 f = (1, 1)" "\<forall>m \<in> set ?Ms. shape2 m = (1, 1)"
    "length ?Ms = length ?V"
    by (simp_all add: shape2_def)
  from read_video_with_mask_range [OF s, of 1 3 24 5 False 0]
  obtain lo hi mv bm where lo: "lo = clamp_bound (length ?V) 1"
    and hi: "hi = clamp_bound (length ?V) 3"
    and r: "read_video_with_mask ?V 24 ?Ms 5 1 3 False 0
        = Inr (map ((!) ?V) [lo ..< hi], mv, bm, if (0 :: int) = 0 then 24 else 0)"
    and l: "length mv = hi - lo" "length bm = hi - lo"
    by blast
  have lo1: "lo = 1" and hi3: "hi = 3" by (simp_all add: lo hi clamp_bound_def)
  have "map ((!) ?V) [1 ..< 3] = [[[(1, 7, 9)]], [[(2, 7, 9)]]]" by code_simp
  with r l lo1 hi3 show ?thesis by simp
qed

text \<open>
  Claim C5 as stated fails. With the default bounds 0 and -1 the video-file loader returns
  the frames 0 and 1 of three (no index lies in the range from 0 to -1); with the bounds
  1 and 2 the frame-directory loader returns all three frames.
\<close>

theorem skip_bounds_counterexample:
  "read_video_with_mask [[[(0, 7, 9)]], [[(1, 7, 9)]], [[(2, 7, 9)]]] 24
       [[[5]], [[6]], [[5]]] 5 0 (- 1) False 0
     = Inr ([[[(0, 7, 9)]], [[(1, 7, 9)]]], [[[(0, 0, 0)]], [[(1, 7, 9)]]],
            [[[(255, 255, 255)]], [[(0, 0, 0)]]], 24)
   \<and> read_video_with_mask_from_frame
       (demo_storage [''frame_0.png'', ''frame_1.png'', ''frame_2.png'']
          [''seg_mask_0.png'', ''seg_mask_1.png'', ''seg_mask_2.png''])
       ''../../data/droid_2/images/'' ''../../data/droid_2/masks/'' 1 2 False 8
     = Inr ([[[(0, 7, 9)]], [[(1, 7, 9)]], [[(2, 7, 9)]]],
            [[[(0, 0, 0)]], [[(1, 7, 9)]], [[(0, 0, 0)]]],
            [[[(255, 255, 255)]], [[(0, 0, 0)]], [[(255, 255, 255)]]], 8)"
  by code_simp

section \<open>The compositor: layout of the comparison frames\<close>

lemma frames_of_shapeD:
  assumes "frames_of_shape n H W v" and "i < n"
  shows "length v = n" and "length (v ! i) = H" and "r < H \<Longrightarrow> length (v ! i ! r) = W"
  using assms by (auto simp: frames_of_shape_def list_all_length)

lemma items_at_four:
  assumes "i < length a" "i < length b" "i < length c" "i < length d"
  shows "items_at i [a, b, c, d] = Inr [a ! i, b ! i, c ! i, d ! i]"
  using assms by simp

lemma np_concatenate_four:
  assumes "length b = length a" "length c = length a" "length d = length a"
  shows "np_concatenate_axis1 [a, b, c, d]
     = Inr (map (\<lambda>r. a ! r @ b ! r @ c ! r @ d ! r) [0 ..< length a])"
  using assms by (simp add: np_concatenate_axis1_def)

lemma concatenate_loop_four:
  assumes "\<forall>i \<in> set is. i < length a \<and> i < length b \<and> i < length c \<and> i < length d
             \<and> length (b ! i) = length (a ! i) \<and> length (c ! i) = length (a ! i)
             \<and> length (d ! i) = length (a ! i)"
  shows "concatenate_loop [a, b, c, d] ''np'' is
     = Inr (map (\<lambda>i. map (\<lambda>r. a ! i ! r @ b ! i ! r @ c ! i ! r @ d ! i ! r)
                        [0 ..< length (a ! i)]) is)"
  using assms
proof (induction "is")
  case Nil
  then show ?case by simp
next
  case (Cons i rest)
  then have i: "i < length a" "i < length b" "i < length c" "i < length d"
    "length (b ! i) = length (a ! i)" "length (c ! i) = length (a ! i)"
    "length (d ! i) = length (a ! i)"
    by simp_all
  from Cons have ih: "concatenate_loop [a, b, c, d] ''np'' rest
     = Inr (map (\<lambda>i. map (\<lambda>r. a ! i ! r @ b ! i ! r @ c ! i ! r @ d ! i ! r)
                        [0 ..< length (a ! i)]) rest)"
    by simp
  show ?case
    by (simp add: items_at_four [OF i(1-4)] np_concatenate_four [OF i(5-7)] ih
        del: items_at.simps)
qed

lemma concatenate_four:
  assumes a: "frames_of_shape n H W a" and b: "frames_of_shape n H W b"
    and c: "frames_of_shape n H W c" and d: "frames_of_shape n H W d"
  shows "concatenate_images_horizontally [a, b, c, d] ''np''
     = Inr (map (\<lambda>i. map (\<lambda>r. a ! i ! r @ b ! i ! r @ c ! i ! r @ d ! i ! r) [0 ..< H])
                [0 ..< n])"
proof -
  have la: "length a = n" using a by (simp add: frames_of_shape_def)
  have "\<forall>i \<in> set [0 ..< n]. i < length a \<and> i < length b \<and> i < length c \<and> i < length d
             \<and> length (b ! i) = length (a ! i) \<and> length (c ! i) = length (a ! i)
             \<and> length (d ! i) = length (a ! i)"
    using frames_of_shapeD(1,2) [OF a] frames_of_shapeD(1,2) [OF b]
      frames_of_shapeD(1,2) [OF c] frames_of_shapeD(1,2) [OF d] by simp
  from concatenate_loop_four [OF this]
  have "concatenate_loop [a, b, c, d] ''np'' [0 ..< n]
     = Inr (map (\<lambda>i. map (\<lambda>r. a ! i ! r @ b ! i ! r @ c ! i ! r @ d ! i ! r)
                        [0 ..< length (a ! i)]) [0 ..< n])" .
  also have "map (\<lambda>i. map (\<lambda>r. a ! i ! r @ b ! i ! r @ c ! i ! r @ d ! i ! r)
                        [0 ..< length (a ! i)]) [0 ..< n]
      = map (\<lambda>i. map (\<lambda>r. a ! i ! r @ b ! i ! r @ c ! i ! r @ d ! i ! r) [0 ..< H]) [0 ..< n]"
    using frames_of_shapeD(2) [OF a] by simp
  finally show ?thesis by (simp add: concatenate_images_horizontally_def la)
qed


lemma frame_shape_of:
  "frames_of_shape n H W v \<Longrightarrow>
     frame_shape v = (if n = 0 then (0, 0) else (H, if H = 0 then 0 else W))"
  by (cases v; cases "hd v")
     (auto simp: frames_of_shape_def frame_shape_def shape2_def)

lemma broadcast_to_same:
  assumes "length a = H" and "list_all (\<lambda>row. length row = W) a"
  shows "broadcast_to H (if H = 0 then 0 else W) a = a"
proof -
  have "map (stretch (if H = 0 then 0 else W)) a = a"
    using assms by (intro map_idI) (auto simp: stretch_def list_all_iff)
  then show ?thesis using assms(1) by (simp add: broadcast_to_def stretch_def)
qed

lemma map_broadcast_to_same:
  assumes "frames_of_shape n H W v"
  shows "map (broadcast_to H (if H = 0 then 0 else W)) (stretch n v) = v"
proof -
  have "stretch n v = v" using assms by (simp add: stretch_def frames_of_shape_def)
  moreover have "map (broadcast_to H (if H = 0 then 0 else W)) v = v"
    using assms by (intro map_idI broadcast_to_same) (auto simp: frames_of_shape_def list_all_iff)
  ultimately show ?thesis by simp
qed

lemma mul_mask_same_shape:
  assumes "frames_of_shape n H W original" and "frames_of_shape n H W keep"
  shows "mul_mask original keep
     = Inr (map2 (map2 (map2 (\<lambda>px k. if k then px else (0, 0, 0)))) original keep)"
proof (cases "n = 0")
  case True
  with assms have "original = []" "keep = []" by (simp_all add: frames_of_shape_def)
  then show ?thesis
    by (simp add: mul_mask_def frame_shape_def broadcast_dim_def stretch_def)
next
  case False
  from assms have l: "length original = n" "length keep = n"
    by (simp_all add: frames_of_shape_def)
  show ?thesis
    using False map_broadcast_to_same [OF assms(1)] map_broadcast_to_same [OF assms(2)]
    by (simp add: mul_mask_def frame_shape_of [OF assms(1)] frame_shape_of [OF assms(2)]
        broadcast_dim_def l)
qed

lemma frames_of_shape_map2:
  assumes "frames_of_shape n H W x" and "frames_of_shape n H W y"
  shows "frames_of_shape n H W (map2 (map2 (map2 f)) x y)"
  using assms unfolding frames_of_shape_def list_all_length
  by (auto simp: list_all_length)

lemma frames_of_shape_map:
  "frames_of_shape n H W x \<Longrightarrow> frames_of_shape n H W (map (map (map f)) x)"
  unfolding frames_of_shape_def list_all_length by auto

lemma frames_of_shape_repeat3:
  "frames_of_shape n H W x \<Longrightarrow> frames_of_shape n H W (map repeat3 x)"
  unfolding frames_of_shape_def list_all_length repeat3_def by auto


lemma concatenate_four_layout:
  assumes a: "frames_of_shape n H W a" and b: "frames_of_shape n H W b"
    and c: "frames_of_shape n H W c" and d: "frames_of_shape n H W d"
  shows "\<exists>out. concatenate_images_horizontally [a, b, c, d] ''np'' = Inr out
      \<and> length out = n
      \<and> (\<forall>i < n. length (out ! i) = H
            \<and> (\<forall>r < H. out ! i ! r = a ! i ! r @ b ! i ! r @ c ! i ! r @ d ! i ! r
                  \<and> length (out ! i ! r) = 4 * W))"
proof -
  let ?out = "map (\<lambda>i. map (\<lambda>r. a ! i ! r @ b ! i ! r @ c ! i ! r @ d ! i ! r) [0 ..< H])
                [0 ..< n]"
  have "concatenate_images_horizontally [a, b, c, d] ''np'' = Inr ?out"
    by (rule concatenate_four [OF a b c d])
  moreover have "length ?out = n" by simp
  moreover have "length (?out ! i) = H
            \<and> (\<forall>r < H. ?out ! i ! r = a ! i ! r @ b ! i ! r @ c ! i ! r @ d ! i ! r
                  \<and> length (?out ! i ! r) = 4 * W)" if "i < n" for i
    using that frames_of_shapeD(3) [OF a that] frames_of_shapeD(3) [OF b that]
      frames_of_shapeD(3) [OF c that] frames_of_shapeD(3) [OF d that]
    by simp
  ultimately show ?thesis by blast
qed

lemma repeat3_nth:
  "i < length x \<Longrightarrow> r < length (x ! i) \<Longrightarrow> map repeat3 x ! i ! r = map (\<lambda>m. (m, m, m)) (x ! i ! r)"
  by (simp add: repeat3_def)

text \<open>
  Claim C9. Given four sequences of \<open>n\<close> frames of height \<open>H\<close> and width \<open>W\<close>,
  \<^verbatim>\<open>concatenate_images_horizontally\<close> returns \<open>n\<close> frames of height \<open>H\<close> whose row \<open>r\<close> is
  row \<open>r\<close> of the four inputs, left to right, and so has width \<open>4 * W\<close>.
  \<^verbatim>\<open>_visualize_video\<close> calls it on the postprocessed original, the postprocessed masked
  video, the mask with each value repeated on three channels, and the generated video, in
  this order: when the generated video has \<open>n > 0\<close> frames of height \<open>H > 0\<close> and width
  \<open>W\<close> and the processors deliver frames of that shape, every output frame is that
  concatenation.
\<close>

theorem compositor_layout:
  "(frames_of_shape n H W original \<and> frames_of_shape n H W masked
      \<and> frames_of_shape n H W masks3 \<and> frames_of_shape n H W generated \<longrightarrow>
      (\<exists>out. concatenate_images_horizontally [original, masked, masks3, generated] ''np''
                = Inr out
         \<and> length out = n
         \<and> (\<forall>i < n. length (out ! i) = H
               \<and> (\<forall>r < H. out ! i ! r
                              = original ! i ! r @ masked ! i ! r @ masks3 ! i ! r
                                  @ generated ! i ! r
                     \<and> length (out ! i ! r) = 4 * W))))
   \<and> (0 < n \<and> 0 < H \<and> frames_of_shape n H W video
      \<and> frames_of_shape n H W (video_preprocess pipe H W original_video)
      \<and> frames_of_shape n H W (mask_preprocess pipe H W masks)
      \<and> (\<forall>t. frames_of_shape n H W t \<longrightarrow> frames_of_shape n H W (video_postprocess pipe t))
      \<longrightarrow>
      (\<exists>out masked_video.
           masked_video
             = map2 (map2 (map2 (\<lambda>px k. if k then px else (0, 0, 0))))
                 (video_preprocess pipe H W original_video)
                 (map (map (map (\<lambda>m. if mask_background then m \<ge> 0.5 else m < 0.5)))
                    (mask_preprocess pipe H W masks))
         \<and> visualize_video pipe mask_background original_video video masks = Inr out
         \<and> length out = n
         \<and> (\<forall>i < n. length (out ! i) = H
               \<and> (\<forall>r < H. out ! i ! r
                       = video_postprocess pipe (video_preprocess pipe H W original_video) ! i ! r
                         @ video_postprocess pipe masked_video ! i ! r
                         @ map (\<lambda>m. (m, m, m)) (mask_preprocess pipe H W masks ! i ! r)
                         @ video ! i ! r
                     \<and> length (out ! i ! r) = 4 * W))))"
proof (intro conjI impI)
  assume "frames_of_shape n H W original \<and> frames_of_shape n H W masked
      \<and> frames_of_shape n H W masks3 \<and> frames_of_shape n H W generated"
  then show "\<exists>out. concatenate_images_horizontally [original, masked, masks3, generated] ''np''
                = Inr out
         \<and> length out = n
         \<and> (\<forall>i < n. length (out ! i) = H
               \<and> (\<forall>r < H. out ! i ! r
                              = original ! i ! r @ masked ! i ! r @ masks3 ! i ! r
                                  @ generated ! i ! r
                     \<and> length (out ! i ! r) = 4 * W))"
    using concatenate_four_layout by blast
next
  let ?O = "video_preprocess pipe H W original_video"
  let ?K = "mask_preprocess pipe H W masks"
  let ?keep = "map (map (map (\<lambda>m. if mask_background then m \<ge> 0.5 else m < 0.5))) ?K"
  let ?Mv = "map2 (map2 (map2 (\<lambda>px k. if k then px else (0, 0, 0)))) ?O ?keep"
  assume h: "0 < n \<and> 0 < H \<and> frames_of_shape n H W video
      \<and> frames_of_shape n H W ?O \<and> frames_of_shape n H W ?K
      \<and> (\<forall>t. frames_of_shape n H W t \<longrightarrow> frames_of_shape n H W (video_postprocess pipe t))"
  then have n: "0 < n" and H: "0 < H" and v: "frames_of_shape n H W video"
    and O: "frames_of_shape n H W ?O" and K: "frames_of_shape n H W ?K"
    and post: "\<And>t. frames_of_shape n H W t \<Longrightarrow> frames_of_shape n H W (video_postprocess pipe t)"
    by blast+
  have fs: "frame_shape video = (H, W)" using frame_shape_of [OF v] n H by simp
  have keep: "frames_of_shape n H W ?keep" by (rule frames_of_shape_map [OF K])
  have mm: "mul_mask ?O ?keep = Inr ?Mv" by (rule mul_mask_same_shape [OF O keep])
  have Mv: "frames_of_shape n H W ?Mv" by (rule frames_of_shape_map2 [OF O keep])
  have k3: "frames_of_shape n H W (map repeat3 ?K)" by (rule frames_of_shape_repeat3 [OF K])
  have vis: "visualize_video pipe mask_background original_video video masks
      = concatenate_images_horizontally
          [video_postprocess pipe ?O, video_postprocess pipe ?Mv, map repeat3 ?K, video] ''np''"
  proof (cases mask_background)
    case True
    with mm have mm': "mul_mask ?O (map (map (map (\<lambda>m. m \<ge> 0.5))) ?K) = Inr ?Mv"
      by simp
    show ?thesis
      by (simp only: visualize_video_def fs Let_def prod.case True if_True mm' sum.case)
  next
    case False
    with mm have mm': "mul_mask ?O (map (map (map (\<lambda>m. m < 0.5))) ?K) = Inr ?Mv"
      by simp
    show ?thesis
      by (simp only: visualize_video_def fs Let_def prod.case False if_False mm' sum.case)
  qed
  from concatenate_four_layout [OF post [OF O] post [OF Mv] k3 v]
  obtain out where out: "concatenate_images_horizontally
          [video_postprocess pipe ?O, video_postprocess pipe ?Mv, map repeat3 ?K, video] ''np''
        = Inr out"
    and len: "length out = n"
    and lay: "\<forall>i < n. length (out ! i) = H
            \<and> (\<forall>r < H. out ! i ! r = video_postprocess pipe ?O ! i ! r
                    @ video_postprocess pipe ?Mv ! i ! r @ map repeat3 ?K ! i ! r @ video ! i ! r
                  \<and> length (out ! i ! r) = 4 * W)"
    by blast
  have rep: "map repeat3 ?K ! i ! r = map (\<lambda>m. (m, m, m)) (?K ! i ! r)"
    if "i < n" "r < H" for i r
    using that frames_of_shapeD(1,2) [OF K] by (intro repeat3_nth) simp_all
  have lay': "\<forall>i < n. length (out ! i) = H
            \<and> (\<forall>r < H. out ! i ! r = video_postprocess pipe ?O ! i ! r
                    @ video_postprocess pipe ?Mv ! i ! r @ map (\<lambda>m. (m, m, m)) (?K ! i ! r)
                    @ video ! i ! r
                  \<and> length (out ! i ! r) = 4 * W)"
  proof -
    {
      fix i assume i: "i < n"
      have 1: "length (out ! i) = H" using lay i by blast
      {
        fix r assume r: "r < H"
        from lay i r have e: "out ! i ! r = video_postprocess pipe ?O ! i ! r
                    @ video_postprocess pipe ?Mv ! i ! r @ map repeat3 ?K ! i ! r @ video ! i ! r"
          and l: "length (out ! i ! r) = 4 * W"
          by blast+
        from e have "out ! i ! r = video_postprocess pipe ?O ! i ! r
                    @ video_postprocess pipe ?Mv ! i ! r @ map (\<lambda>m. (m, m, m)) (?K ! i ! r)
                    @ video ! i ! r"
          by (simp only: rep [OF i r])
        with l have "out ! i ! r = video_postprocess pipe ?O ! i ! r
                    @ video_postprocess pipe ?Mv ! i ! r @ map (\<lambda>m. (m, m, m)) (?K ! i ! r)
                    @ video ! i ! r
                  \<and> length (out ! i ! r) = 4 * W"
          by (rule conjI [rotated])
      }
      with 1 have "length (out ! i) = H
            \<and> (\<forall>r < H. out ! i ! r = video_postprocess pipe ?O ! i ! r
                    @ video_postprocess pipe ?Mv ! i ! r @ map (\<lambda>m. (m, m, m)) (?K ! i ! r)
                    @ video ! i ! r
                  \<and> length (out ! i ! r) = 4 * W)"
        by blast
    }
    then show ?thesis by blast
  qed
  have res: "visualize_video pipe mask_background original_video video masks = Inr out"
    by (simp only: vis out)
  show "\<exists>out masked_video.
           masked_video = ?Mv
         \<and> visualize_video pipe mask_background original_video video masks = Inr out
         \<and> length out = n
         \<and> (\<forall>i < n. length (out ! i) = H
               \<and> (\<forall>r < H. out ! i ! r
                       = video_postprocess pipe ?O ! i ! r
                         @ video_postprocess pipe masked_video ! i ! r
                         @ map (\<lambda>m. (m, m, m)) (?K ! i ! r)
                         @ video ! i ! r
                     \<and> length (out ! i ! r) = 4 * W))"
    by (rule exI [of _ out], rule exI [of _ ?Mv]) (intro conjI refl res len lay')
qed


text \<open>
  Claim C9 on two frames of one row and two columns, and on one frame through
  \<^verbatim>\<open>_visualize_video\<close>.
\<close>

theorem compositor_layout_witness:
  "(\<exists>out. concatenate_images_horizontally
            [[[[1, 2]], [[3, 4]]], [[[0, 2]], [[3, 0]]], [[[255, 0]], [[0, 255]]],
             [[[7, 8]], [[9, 10 :: nat]]]] ''np'' = Inr out
       \<and> length out = 2
       \<and> (\<forall>i < 2. length (out ! i) = 1 \<and> (\<forall>r < 1. length (out ! i ! r) = 4 * 2)))
   \<and> concatenate_images_horizontally
            [[[[1, 2]], [[3, 4]]], [[[0, 2]], [[3, 0]]], [[[255, 0]], [[0, 255]]],
             [[[7, 8]], [[9, 10 :: nat]]]] ''np''
       = Inr [[[1, 2, 0, 2, 255, 0, 7, 8]], [[3, 4, 3, 0, 0, 255, 9, 10]]]
   \<and> (\<exists>out. visualize_video demo_processors False [[[(10, 20, 30), (40, 50, 60)]]]
              [[[(0.5, 0.5, 0.5), (0.25, 0.25, 0.25)]]] [[[(255, 255, 255), (0, 0, 0)]]]
            = Inr out
        \<and> length out = 1
        \<and> (\<forall>i < 1. length (out ! i) = 1 \<and> (\<forall>r < 1. length (out ! i ! r) = 4 * 2)))
   \<and> visualize_video demo_processors False [[[(10, 20, 30), (40, 50, 60)]]]
          [[[(0.5, 0.5, 0.5), (0.25, 0.25, 0.25)]]] [[[(255, 255, 255), (0, 0, 0)]]]
       = Inr [[[(10, 20, 30), (40, 50, 60), (0, 0, 0), (40, 50, 60), (1, 1, 1), (0, 0, 0),
                (0.5, 0.5, 0.5), (0.25, 0.25, 0.25)]]]"
proof -
  let ?a = "[[[1, 2]], [[3, 4 :: nat]]]"
  let ?b = "[[[0, 2]], [[3, 0 :: nat]]]"
  let ?c = "[[[255, 0]], [[0, 255 :: nat]]]"
  let ?d = "[[[7, 8]], [[9, 10 :: nat]]]"
  let ?ov = "[[[(10, 20, 30), (40, 50, 60)]]] :: image list"
  let ?ms = "[[[(255, 255, 255), (0, 0, 0)]]] :: image list"
  let ?g = "[[[(0.5, 0.5, 0.5), (0.25, 0.25, 0.25)]]] :: fframe list"
  have h1: "frames_of_shape 2 1 2 ?a \<and> frames_of_shape 2 1 2 ?b
      \<and> frames_of_shape 2 1 2 ?c \<and> frames_of_shape 2 1 2 ?d"
    by (simp add: frames_of_shape_def)
  have h2: "0 < (1 :: nat) \<and> 0 < (1 :: nat) \<and> frames_of_shape 1 1 2 ?g
      \<and> frames_of_shape 1 1 2 (video_preprocess demo_processors 1 2 ?ov)
      \<and> frames_of_shape 1 1 2 (mask_preprocess demo_processors 1 2 ?ms)
      \<and> (\<forall>t. frames_of_shape 1 1 2 t \<longrightarrow>
             frames_of_shape 1 1 2 (video_postprocess demo_processors t))"
    by (simp add: frames_of_shape_def demo_processors_def)
  from compositor_layout [where n = 2 and H = 1 and W = 2 and original = ?a and masked = ?b
      and ?masks3.0 = ?c and generated = ?d, THEN conjunct1, THEN mp, OF h1]
  have 1: "\<exists>out. concatenate_images_horizontally [?a, ?b, ?c, ?d] ''np'' = Inr out
       \<and> length out = 2
       \<and> (\<forall>i < 2. length (out ! i) = 1 \<and> (\<forall>r < 1. length (out ! i ! r) = 4 * 2))"
    by blast
  have 2: "concatenate_images_horizontally [?a, ?b, ?c, ?d] ''np''
       = Inr [[[1, 2, 0, 2, 255, 0, 7, 8]], [[3, 4, 3, 0, 0, 255, 9, 10]]]"
    by code_simp
  from compositor_layout [where n = 1 and H = 1 and W = 2 and pipe = demo_processors
      and original_video = ?ov and masks = ?ms and video = ?g and mask_background = False,
      THEN conjunct2, THEN mp, OF h2]
  have 3: "\<exists>out. visualize_video demo_processors False ?ov ?g ?ms = Inr out
        \<and> length out = 1
        \<and> (\<forall>i < 1. length (out ! i) = 1 \<and> (\<forall>r < 1. length (out ! i ! r) = 4 * 2))"
    by blast
  have 4: "visualize_video demo_processors False ?ov ?g ?ms
       = Inr [[[(10, 20, 30), (40, 50, 60), (0, 0, 0), (40, 50, 60), (1, 1, 1), (0, 0, 0),
                (0.5, 0.5, 0.5), (0.25, 0.25, 0.25)]]]"
    by code_simp
  from 1 2 3 4 show ?thesis by blast
qed

section \<open>The frame-directory loader pairs by numeric suffix\<close>

lemma digit_char: "k < 10 \<Longrightarrow> (of_char (''0123456789'' ! k) :: nat) = 48 + k"
proof -
  assume "k < 10"
  then consider "k = 0" | "k = 1" | "k = 2" | "k = 3" | "k = 4" | "k = 5" | "k = 6" | "k = 7"
    | "k = 8" | "k = 9"
    by atomize_elim arith
  then show ?thesis by cases simp_all
qed

lemma str_nat_digits: "str_nat n \<noteq> [] \<and> list_all is_digit (str_nat n)"
proof (induction n rule: str_nat.induct)
  case (1 n)
  show ?case
  proof (cases "n < 10")
    case True
    then show ?thesis
      by (subst str_nat.simps, subst (2) str_nat.simps) (simp add: is_digit_def digit_char)
  next
    case False
    with 1 have ih: "list_all is_digit (str_nat (n div 10))" by simp
    have "is_digit (''0123456789'' ! (n mod 10))"
      by (simp add: is_digit_def digit_char)
    with ih False show ?thesis
      by (subst str_nat.simps, subst (2) str_nat.simps) simp
  qed
qed

lemma digits_value_snoc:
  "digits_value (ds @ [c]) = 10 * digits_value ds + ((of_char c :: nat) - 48)"
  by (simp add: digits_value_def)

lemma digits_value_str_nat: "digits_value (str_nat n) = n"
proof (induction n rule: str_nat.induct)
  case (1 n)
  show ?case
  proof (cases "n < 10")
    case True
    then show ?thesis
      by (subst str_nat.simps) (simp add: digits_value_def digit_char)
  next
    case False
    with 1 have "digits_value (str_nat (n div 10)) = n div 10" by simp
    with False show ?thesis
      by (subst str_nat.simps) (simp add: digits_value_snoc digit_char)
  qed
qed

lemma is_digit_chars:
  "is_digit c \<Longrightarrow> c \<noteq> CHR ''/'' \<and> c \<noteq> CHR ''.'' \<and> c \<noteq> CHR ''_'' \<and> c \<noteq> CHR ''-''
     \<and> c \<noteq> CHR ''+'' \<and> \<not> is_space c"
  by (auto simp: is_digit_def is_space_def)


lemma no_separator: "c \<notin> set f \<Longrightarrow> rev (takeWhile (\<lambda>x. x \<noteq> c) (rev f)) = f"
proof -
  assume "c \<notin> set f"
  then have t: "takeWhile (\<lambda>x. x \<noteq> c) (rev f) = rev f"
    by (intro takeWhile_eq_all_conv [THEN iffD2]) auto
  show ?thesis unfolding t by (rule rev_rev_ident)
qed

lemma after_last_separator:
  assumes "c \<notin> set f"
  shows "rev (takeWhile (\<lambda>x. x \<noteq> c) (rev (pre @ c # f))) = f"
proof -
  have "rev (pre @ c # f) = rev f @ c # rev pre" by simp
  moreover have "takeWhile (\<lambda>x. x \<noteq> c) (rev f @ c # rev pre) = takeWhile (\<lambda>x. x \<noteq> c) (rev f)"
    by (rule takeWhile_tail) simp
  ultimately show ?thesis using no_separator [OF assms] by (simp only:)
qed

lemma endswith_slash: "endswith d ''/'' \<Longrightarrow> \<exists>d'. d = d' @ ''/''"
proof -
  assume a: "endswith d ''/''"
  then have "drop (length d - 1) d = ''/''" by (simp add: endswith_def)
  then have "d = take (length d - 1) d @ ''/''"
    by (metis append_take_drop_id)
  then show ?thesis by blast
qed

lemma basename_path_join:
  assumes "CHR ''/'' \<notin> set f"
  shows "basename (path_join d f) = f"
proof -
  have b0: "basename f = f" unfolding basename_def by (rule no_separator [OF assms])
  have b1: "basename (x @ CHR ''/'' # f) = f" for x
    unfolding basename_def by (rule after_last_separator [OF assms])
  consider "startswith f ''/''" | "\<not> startswith f ''/''" "d = []"
    | "\<not> startswith f ''/''" "d \<noteq> []" "endswith d ''/''"
    | "\<not> startswith f ''/''" "d \<noteq> []" "\<not> endswith d ''/''"
    by blast
  then show ?thesis
  proof cases
    case 1
    then show ?thesis by (simp add: path_join_def b0)
  next
    case 2
    then show ?thesis by (simp add: path_join_def b0)
  next
    case 3
    from endswith_slash [OF 3(3)] obtain d' where "d = d' @ ''/''" by blast
    with 3 b1 [of d'] show ?thesis by (simp add: path_join_def)
  next
    case 4
    with b1 [of d] show ?thesis by (simp add: path_join_def)
  qed
qed

lemma splitext_root_png:
  assumes "CHR ''.'' \<notin> set b" and "\<not> list_all (\<lambda>c. c = CHR ''.'') b"
  shows "splitext_root (b @ ''.png'') = b"
proof -
  have "takeWhile (\<lambda>c. c \<noteq> CHR ''.'') (rev (b @ ''.png'')) = ''gnp''" by simp
  then show ?thesis using assms by (simp add: splitext_root_def)
qed

lemma last_field_after_underscore:
  "CHR ''_'' \<notin> set ds \<Longrightarrow> last_field (pre @ CHR ''_'' # ds) = ds"
  unfolding last_field_def by (rule after_last_separator)

lemma dropWhile_self: "xs \<noteq> [] \<Longrightarrow> \<not> P (hd xs) \<Longrightarrow> dropWhile P xs = xs"
  by (cases xs) simp_all

lemma strip_digits:
  assumes "ds \<noteq> []" and "list_all is_digit ds"
  shows "strip ds = ds"
proof -
  from assms have h: "\<not> is_space (hd ds)" and l: "\<not> is_space (last ds)"
    using is_digit_chars by (auto simp: list_all_iff)
  have a: "dropWhile is_space ds = ds" using assms(1) h by (rule dropWhile_self)
  have "hd (rev ds) = last ds" using assms(1) by (simp add: hd_rev)
  with l assms(1) have b: "dropWhile is_space (rev ds) = rev ds"
    by (intro dropWhile_self) simp_all
  show ?thesis unfolding strip_def a b by (rule rev_rev_ident)
qed

lemma py_int_digits:
  assumes "ds \<noteq> []" and "list_all is_digit ds"
  shows "py_int ds = Inr (int (digits_value ds))"
proof -
  from assms obtain c r where ds: "ds = c # r" by (cases ds) auto
  with assms(2) have c: "c \<noteq> CHR ''-''" "c \<noteq> CHR ''+''" using is_digit_chars by auto
  have "py_int ds =
     (case (case ds of [] \<Rightarrow> (False, [])
              | c # r \<Rightarrow> if c = CHR ''-'' then (True, r)
                         else if c = CHR ''+'' then (False, r) else (False, ds)) of
        (negative, ds') \<Rightarrow>
          if ds' \<noteq> [] \<and> list_all is_digit ds'
          then Inr (if negative then - int (digits_value ds') else int (digits_value ds'))
          else Inl (ValueError (''invalid literal for int() with base 10: '' @ ds)))"
    unfolding py_int_def Let_def strip_digits [OF assms] ..
  also have "\<dots> = Inr (int (digits_value ds))"
    using assms c by (simp add: ds)
  finally show ?thesis .
qed

lemma digits_no_separators:
  "CHR ''/'' \<notin> set (str_nat n) \<and> CHR ''.'' \<notin> set (str_nat n) \<and> CHR ''_'' \<notin> set (str_nat n)"
proof -
  have d: "\<forall>c \<in> set (str_nat n). is_digit c"
    using str_nat_digits [of n] by (simp add: list_all_iff)
  {
    fix c assume "c \<in> set (str_nat n)"
    with d have "is_digit c" by blast
    from is_digit_chars [OF this]
    have "c \<noteq> CHR ''/'' \<and> c \<noteq> CHR ''.'' \<and> c \<noteq> CHR ''_''" by blast
  }
  then show ?thesis by blast
qed

lemma sort_key_of_frame_name: "sort_key_of (path_join d (frame_name i)) = Inr (int i)"
proof -
  have a: "CHR ''/'' \<notin> set (frame_name i)"
    using digits_no_separators [of i] by (simp add: frame_name_def)
  have b: "splitext_root (frame_name i) = ''frame_'' @ str_nat i"
    unfolding frame_name_def append_assoc [symmetric]
    using digits_no_separators [of i] by (intro splitext_root_png) auto
  have c: "last_field (''frame_'' @ str_nat i) = str_nat i"
    using last_field_after_underscore [of "str_nat i" "''frame''"] digits_no_separators [of i]
    by simp
  have "sort_key_of (path_join d (frame_name i)) = py_int (last_field (splitext_root (frame_name i)))"
    by (simp only: sort_key_of_def basename_path_join [OF a])
  also have "\<dots> = py_int (str_nat i)" by (simp only: b c)
  also have "\<dots> = Inr (int (digits_value (str_nat i)))"
    using str_nat_digits [of i] by (intro py_int_digits) blast+
  finally show ?thesis by (simp only: digits_value_str_nat)
qed

lemma sort_key_of_mask_name: "sort_key_of (path_join d (mask_name i)) = Inr (int i)"
proof -
  have a: "CHR ''/'' \<notin> set (mask_name i)"
    using digits_no_separators [of i] by (simp add: mask_name_def)
  have b: "splitext_root (mask_name i) = ''seg_mask_'' @ str_nat i"
    unfolding mask_name_def append_assoc [symmetric]
    using digits_no_separators [of i] by (intro splitext_root_png) auto
  have c: "last_field (''seg_mask_'' @ str_nat i) = str_nat i"
    using last_field_after_underscore [of "str_nat i" "''seg_mask''"] digits_no_separators [of i]
    by simp
  have "sort_key_of (path_join d (mask_name i)) = py_int (last_field (splitext_root (mask_name i)))"
    by (simp only: sort_key_of_def basename_path_join [OF a])
  also have "\<dots> = py_int (str_nat i)" by (simp only: b c)
  also have "\<dots> = Inr (int (digits_value (str_nat i)))"
    using str_nat_digits [of i] by (intro py_int_digits) blast+
  finally show ?thesis by (simp only: digits_value_str_nat)
qed


lemma mask_frames_map:
  "\<forall>i \<in> set is. mask_frame mb (f i) (g i) = Inr (X i, B i) \<Longrightarrow>
     mask_frames mb (map (\<lambda>i. (f i, g i)) is) = Inr (map X is, map B is)"
  by (induction "is") simp_all

lemma sorted_ints_upt: "sorted (map int [0 ..< n])"
  by (auto simp: sorted_iff_nth_mono)

lemma sort_by_suffix:
  assumes m: "mset names = mset (map name [0 ..< n])"
    and k: "\<And>i. key (path_join d (name i)) = int i"
  shows "sort_key key (map (path_join d) names) = map (\<lambda>i. path_join d (name i)) [0 ..< n]"
proof (rule sort_key_inj_key_eq)
  let ?T = "map (\<lambda>i. path_join d (name i)) [0 ..< n]"
  have "mset (map (path_join d) names) = image_mset (path_join d) (mset names)" by simp
  also have "\<dots> = image_mset (path_join d) (mset (map name [0 ..< n]))" by (simp only: m)
  also have "\<dots> = mset ?T" by (simp add: multiset.map_comp comp_def)
  finally show e: "mset (map (path_join d) names) = mset ?T" .
  then have "set (map (path_join d) names) = set ?T" by (rule mset_eq_setD)
  moreover have "inj_on key (set ?T)"
  proof (rule inj_onI)
    fix p q assume "p \<in> set ?T" "q \<in> set ?T" "key p = key q"
    then obtain i j where "p = path_join d (name i)" "q = path_join d (name j)" by auto
    with \<open>key p = key q\<close> k show "p = q" by simp
  qed
  ultimately show "inj_on key (set (map (path_join d) names))" by (simp only:)
  have "map key ?T = map int [0 ..< n]" by (simp add: k)
  then show "sorted (map key ?T)" by (simp only: sorted_ints_upt)
qed


text \<open>
  Claim C7, for any number \<open>n\<close> of files (the claim is \<open>n = 5\<close>). Let the files of the
  frame directory that match \<^verbatim>\<open>frame_*.png\<close> be \<^verbatim>\<open>frame_0.png\<close> ... \<^verbatim>\<open>frame_(n-1).png\<close> and
  those of the mask directory that match \<^verbatim>\<open>seg_mask_*.png\<close> be \<^verbatim>\<open>seg_mask_0.png\<close> ...
  \<^verbatim>\<open>seg_mask_(n-1).png\<close>, listed in any order and among any other files, frame \<open>i\<close>
  decoding to \<open>F i\<close> and mask \<open>i\<close> to \<open>M i\<close> of the same shape. Then the loader returns
  a clip of length \<open>n\<close> whose index \<open>i\<close> holds \<open>F i\<close>, and the masked frame and binary
  mask computed from \<open>F i\<close> and \<open>M i\<close>.
\<close>

theorem loader_pairs_by_suffix:
  assumes ls: "listdir st video_path = Some fs" "listdir st mask_path = Some ms"
    and mf: "mset (filter frame_file fs) = mset (map frame_name [0 ..< n])"
    and mm: "mset (filter mask_file ms) = mset (map mask_name [0 ..< n])"
    and op: "\<forall>i < n. open_RGB st (path_join video_path (frame_name i)) = Some (F i)
               \<and> open_L st (path_join mask_path (mask_name i)) = Some (M i)
               \<and> shape2 (M i) = shape2 (F i)"
  shows "\<exists>X B. read_video_with_mask_from_frame st video_path mask_path skip_frames_start
                  skip_frames_end mask_background fps
               = Inr (map F [0 ..< n], map X [0 ..< n], map B [0 ..< n], fps)
           \<and> (\<forall>i < n. mask_frame mask_background (F i) (map (map (\<lambda>v. v = 255)) (M i))
                          = Inr (X i, B i))"
proof -
  define key where "key p = (case sort_key_of p of Inr k \<Rightarrow> k | Inl e \<Rightarrow> 0)" for p
  define Fp where "Fp p = the (open_RGB st p)" for p
  define Mp where "Mp p = the (open_L st p)" for p
  let ?FP = "map (path_join video_path) (filter frame_file fs)"
  let ?MP = "map (path_join mask_path) (filter mask_file ms)"
  let ?T = "map (\<lambda>i. path_join video_path (frame_name i)) [0 ..< n]"
  let ?U = "map (\<lambda>i. path_join mask_path (mask_name i)) [0 ..< n]"
  have kf: "key (path_join d (frame_name i)) = int i" for d i
    by (simp add: key_def sort_key_of_frame_name)
  have km: "key (path_join d (mask_name i)) = int i" for d i
    by (simp add: key_def sort_key_of_mask_name)
  have sT: "sort_key key ?FP = ?T" by (rule sort_by_suffix [OF mf kf])
  have sU: "sort_key key ?MP = ?U" by (rule sort_by_suffix [OF mm km])
  have "set ?FP = set (sort_key key ?FP)" by simp
  then have setF: "set ?FP = set ?T" by (simp only: sT)
  have "set ?MP = set (sort_key key ?MP)" by simp
  then have setM: "set ?MP = set ?U" by (simp only: sU)
  have a: "\<forall>p \<in> set ?FP. sort_key_of p = Inr (key p) \<and> open_RGB st p = Some (Fp p)"
  proof
    fix p assume "p \<in> set ?FP"
    with setF obtain i where i: "i < n" and p: "p = path_join video_path (frame_name i)"
      by auto
    from op i have "open_RGB st (path_join video_path (frame_name i)) = Some (F i)" by blast
    then show "sort_key_of p = Inr (key p) \<and> open_RGB st p = Some (Fp p)"
      by (simp add: p kf sort_key_of_frame_name Fp_def)
  qed
  have b: "\<forall>p \<in> set ?MP. sort_key_of p = Inr (key p) \<and> open_L st p = Some (Mp p)"
  proof
    fix p assume "p \<in> set ?MP"
    with setM obtain i where i: "i < n" and p: "p = path_join mask_path (mask_name i)"
      by auto
    from op i have "open_L st (path_join mask_path (mask_name i)) = Some (M i)" by blast
    then show "sort_key_of p = Inr (key p) \<and> open_L st p = Some (Mp p)"
      by (simp add: p km sort_key_of_mask_name Mp_def)
  qed
  have FT: "map Fp ?T = map F [0 ..< n]" using op by (simp add: Fp_def)
  have MU: "map (\<lambda>p. map (map (\<lambda>v. v = 255)) (Mp p)) ?U
      = map (\<lambda>i. map (map (\<lambda>v. v = 255)) (M i)) [0 ..< n]"
    using op by (simp add: Mp_def)
  define X where "X i = fst (projr (mask_frame mask_background (F i)
      (map (map (\<lambda>v. v = 255)) (M i))))" for i
  define B where "B i = snd (projr (mask_frame mask_background (F i)
      (map (map (\<lambda>v. v = 255)) (M i))))" for i
  have each: "mask_frame mask_background (F i) (map (map (\<lambda>v. v = 255)) (M i)) = Inr (X i, B i)"
    if "i < n" for i
  proof -
    from op that have "shape2 (map (map (\<lambda>v. v = 255)) (M i)) = shape2 (F i)"
      by (simp add: shape2_map_map)
    from mask_frame_same_shape [OF this, of mask_background]
    show ?thesis by (auto simp: X_def B_def)
  qed
  have z: "zip (map F [0 ..< n]) (map (\<lambda>i. map (map (\<lambda>v. v = 255)) (M i)) [0 ..< n])
      = map (\<lambda>i. (F i, map (map (\<lambda>v. v = 255)) (M i))) [0 ..< n]"
    by (rule zip_map_same)
  have mfs: "mask_frames mask_background
      (map (\<lambda>i. (F i, map (map (\<lambda>v. v = 255)) (M i))) [0 ..< n])
      = Inr (map X [0 ..< n], map B [0 ..< n])"
    by (rule mask_frames_map) (simp add: each)
  have "read_video_with_mask_from_frame st video_path mask_path skip_frames_start
                  skip_frames_end mask_background fps
               = Inr (map F [0 ..< n], map X [0 ..< n], map B [0 ..< n], fps)"
    by (simp only: loader_run [OF ls a b] sT sU FT MU z mfs sum.case prod.case)
  with each show ?thesis by blast
qed


text \<open>
  Claim C7 on the five frames and five masks of the claim, both directories listed out of
  order.
\<close>

theorem loader_pairs_by_suffix_witness:
  "(\<exists>X B. read_video_with_mask_from_frame
             (demo_storage
                [''frame_3.png'', ''frame_0.png'', ''frame_4.png'', ''frame_1.png'', ''frame_2.png'']
                [''seg_mask_2.png'', ''seg_mask_4.png'', ''seg_mask_0.png'', ''seg_mask_3.png'',
                 ''seg_mask_1.png''])
             ''../../data/droid_2/images/'' ''../../data/droid_2/masks/'' 0 (- 1) False 8
           = Inr (map (\<lambda>i. [[(word_of_int (int i), 7, 9)]]) [0 ..< 5], map X [0 ..< 5],
                  map B [0 ..< 5], 8)
        \<and> (\<forall>i < 5. mask_frame False [[(word_of_int (int i), 7, 9)]]
                       (map (map (\<lambda>v. v = 255)) ([[if even (int i) then 255 else 0]] :: gray_image))
                     = Inr (X i, B i)))
   \<and> read_video_with_mask_from_frame
         (demo_storage
            [''frame_3.png'', ''frame_0.png'', ''frame_4.png'', ''frame_1.png'', ''frame_2.png'']
            [''seg_mask_2.png'', ''seg_mask_4.png'', ''seg_mask_0.png'', ''seg_mask_3.png'',
             ''seg_mask_1.png''])
         ''../../data/droid_2/images/'' ''../../data/droid_2/masks/'' 0 (- 1) False 8
       = Inr ([[[(0, 7, 9)]], [[(1, 7, 9)]], [[(2, 7, 9)]], [[(3, 7, 9)]], [[(4, 7, 9)]]],
              [[[(0, 0, 0)]], [[(1, 7, 9)]], [[(0, 0, 0)]], [[(3, 7, 9)]], [[(0, 0, 0)]]],
              [[[(255, 255, 255)]], [[(0, 0, 0)]], [[(255, 255, 255)]], [[(0, 0, 0)]],
               [[(255, 255, 255)]]], 8)"
proof -
  let ?fs = "[''frame_3.png'', ''frame_0.png'', ''frame_4.png'', ''frame_1.png'', ''frame_2.png'']"
  let ?ms = "[''seg_mask_2.png'', ''seg_mask_4.png'', ''seg_mask_0.png'', ''seg_mask_3.png'',
                 ''seg_mask_1.png'']"
  let ?st = "demo_storage ?fs ?ms"
  let ?vp = "''../../data/droid_2/images/''"
  let ?mp = "''../../data/droid_2/masks/''"
  have ls: "listdir ?st ?vp = Some ?fs" "listdir ?st ?mp = Some ?ms"
    by (simp_all add: demo_storage_def)
  have ff: "filter frame_file ?fs = ?fs" "filter mask_file ?ms = ?ms" by code_simp+
  have nm: "map frame_name [0 ..< 5]
      = [''frame_0.png'', ''frame_1.png'', ''frame_2.png'', ''frame_3.png'', ''frame_4.png'']"
    "map mask_name [0 ..< 5]
      = [''seg_mask_0.png'', ''seg_mask_1.png'', ''seg_mask_2.png'', ''seg_mask_3.png'',
         ''seg_mask_4.png'']"
    by code_simp+
  have mf: "mset (filter frame_file ?fs) = mset (map frame_name [0 ..< 5])"
    unfolding ff nm by simp
  have mm: "mset (filter mask_file ?ms) = mset (map mask_name [0 ..< 5])"
    unfolding ff nm by simp
  have op: "\<forall>i < 5. open_RGB ?st (path_join ?vp (frame_name i))
                   = Some [[(word_of_int (int i), 7, 9)]]
               \<and> open_L ?st (path_join ?mp (mask_name i))
                   = Some [[if even (int i) then 255 else 0]]
               \<and> shape2 ([[if even (int i) then 255 else 0]] :: gray_image)
                   = shape2 ([[(word_of_int (int i), 7, 9)]] :: image)"
    by (simp add: demo_storage_def sort_key_of_frame_name sort_key_of_mask_name shape2_def)
  from loader_pairs_by_suffix [OF ls mf mm op, of 0 "- 1" False 8]
  have 1: "\<exists>X B. read_video_with_mask_from_frame ?st ?vp ?mp 0 (- 1) False 8
           = Inr (map (\<lambda>i. [[(word_of_int (int i), 7, 9)]]) [0 ..< 5], map X [0 ..< 5],
                  map B [0 ..< 5], 8)
        \<and> (\<forall>i < 5. mask_frame False [[(word_of_int (int i), 7, 9)]]
                       (map (map (\<lambda>v. v = 255)) ([[if even (int i) then 255 else 0]] :: gray_image))
                     = Inr (X i, B i))" .
  have 2: "read_video_with_mask_from_frame ?st ?vp ?mp 0 (- 1) False 8
       = Inr ([[[(0, 7, 9)]], [[(1, 7, 9)]], [[(2, 7, 9)]], [[(3, 7, 9)]], [[(4, 7, 9)]]],
              [[[(0, 0, 0)]], [[(1, 7, 9)]], [[(0, 0, 0)]], [[(3, 7, 9)]], [[(0, 0, 0)]]],
              [[[(255, 255, 255)]], [[(0, 0, 0)]], [[(255, 255, 255)]], [[(0, 0, 0)]],
               [[(255, 255, 255)]]], 8)"
    by code_simp
  from 1 2 show ?thesis by (rule conjI)
qed

end
